theory Spec2Isabelle
  imports Main "HOL-Library.Word" "HOL-Library.Signed_Division"
begin

unbundle bit_operations_syntax

section \<open>Pyramidal Lucas-Kanade optical flow: \<^verbatim>\<open>opticFlowLK\<close> of \<^verbatim>\<open>lucas_kanade.c\<close>\<close>

text \<open>
  The C function is embedded as HOL functions over machine words.

  \<^item> Integers of a declared width are words of that width: unsigned arithmetic wraps,
    a conversion to a narrower type keeps the low bits, \<open>ucast\<close> is a conversion from an
    unsigned and \<open>scast\<close> from a signed type. Signed overflow (undefined in C) wraps as well,
    as two's complement hardware does; every theorem whose reading in the integers depends
    on the absence of such an overflow says so in a hypothesis.
  \<^item> A division by zero is a trap: the model returns \<open>Inl DivisionByZero\<close>.
  \<^item> An array is the memory behind its pointer, a function from the index to the element.
    \<^verbatim>\<open>pyramid_old[LVL]\<close> with a negative \<^verbatim>\<open>LVL\<close> is \<open>Inl PyramidIndexOutOfRange\<close>.
  \<^item> The header \<^verbatim>\<open>lucas_kanade.h\<close> with \<^verbatim>\<open>struct point_t\<close>, \<^verbatim>\<open>struct flow_t\<close> and
    \<^verbatim>\<open>struct image_t\<close> is not part of the sources. The width \<open>'p\<close> of a coordinate
    (unsigned, at most 32 bits) and the width \<open>'f\<close> of a flow component (signed, at most
    32 bits) are type parameters; the width and height of an image are \<^verbatim>\<open>uint16_t\<close>, the
    type of the sizes \<^verbatim>\<open>image_create\<close> is called with. \<^verbatim>\<open>int\<close> has 32 bits.
  \<^item> The image primitives (\<^verbatim>\<open>pyramid_build\<close>, \<^verbatim>\<open>image_subpixel_window\<close>,
    \<^verbatim>\<open>image_gradients\<close>, \<^verbatim>\<open>image_calculate_g\<close>, \<^verbatim>\<open>image_difference\<close>,
    \<^verbatim>\<open>image_multiply\<close>) are external collaborators. They are parameters of the model:
    functions from their inputs to what they write or return.
  \<^item> The diagnostic \<^verbatim>\<open>printf\<close> calls do not change the result and are left out.
\<close>

subsection \<open>Machine integers\<close>

type_synonym uint8_t = "8 word"
type_synonym int8_t = "8 word"
type_synonym uint16_t = "16 word"
type_synonym uint32_t = "32 word"
type_synonym int32_t = "32 word"
type_synonym int64_t = "64 word"

text \<open>C's \<^verbatim>\<open>/\<close> on signed operands truncates towards zero.\<close>

definition c_sdiv :: "'a::len word \<Rightarrow> 'a word \<Rightarrow> 'a word" where
  "c_sdiv a b = word_of_int (sint a sdiv sint b)"

text \<open>\<^verbatim>\<open>abs\<close> of \<^verbatim>\<open>stdlib.h\<close> on \<^verbatim>\<open>int\<close>.\<close>

definition c_abs :: "int32_t \<Rightarrow> int32_t" where
  "c_abs a = (if a <s 0 then - a else a)"

text \<open>The values of \<^verbatim>\<open>int32_t\<close>: a signed 32-bit result in this range has not overflowed.\<close>

definition in_int32 :: "int \<Rightarrow> bool" where
  "in_int32 k = (- (2 ^ 31) \<le> k \<and> k < 2 ^ 31)"

datatype lk_error = DivisionByZero | PyramidIndexOutOfRange

subsection \<open>Data\<close>

text \<open>
  \<^verbatim>\<open>struct point_t { x; y }\<close>, \<^verbatim>\<open>struct flow_t { struct point_t pos; flow_x; flow_y }\<close>
  and the fields of \<^verbatim>\<open>struct image_t\<close> the function reads. The fields \<^verbatim>\<open>x\<close>, \<^verbatim>\<open>y\<close>,
  \<^verbatim>\<open>w\<close>, \<^verbatim>\<open>h\<close> carry the name of their struct, since a one-letter constant would
  capture the variables of every later statement.
\<close>

record (overloaded) ('p::len) point_t =
  point_x :: "'p word"
  point_y :: "'p word"

record (overloaded) ('p::len, 'f::len) flow_t =
  pos :: "'p point_t"
  flow_x :: "'f word"
  flow_y :: "'f word"

record 'b image_t =
  image_w :: uint16_t
  image_h :: uint16_t
  image_buf :: 'b

text \<open>The \<^verbatim>\<open>int32_t G[4]\<close> matrix, in the order \<^verbatim>\<open>G[0], G[1], G[2], G[3]\<close>.\<close>

type_synonym g_matrix = "int32_t \<times> int32_t \<times> int32_t \<times> int32_t"

text \<open>The arguments of the call that are plain numbers.\<close>

record lk_params =
  half_window_size :: uint16_t
  subpixel_factor :: uint32_t
  max_iterations :: uint8_t
  step_threshold :: uint8_t
  max_points :: uint16_t
  pyramid_level :: uint8_t

text \<open>
  The external image primitives. \<open>pyramid_build img n\<close> is the array of levels it fills,
  \<open>image_subpixel_window img size centre factor\<close> the window of the given size it samples,
  \<open>image_gradients win\<close> the pair of gradient images, \<open>image_calculate_g dx dy\<close> the four
  sums, \<open>image_difference a b\<close> the returned error with the difference image, and
  \<open>image_multiply a b\<close> the returned sum of products.
\<close>

record (overloaded) ('b, 'p::len) lk_prims =
  pyramid_build :: "'b image_t \<Rightarrow> uint8_t \<Rightarrow> nat \<Rightarrow> 'b image_t"
  image_subpixel_window :: "'b image_t \<Rightarrow> uint16_t \<Rightarrow> 'p point_t \<Rightarrow> uint32_t \<Rightarrow> 'b image_t"
  image_gradients :: "'b image_t \<Rightarrow> 'b image_t \<times> 'b image_t"
  image_calculate_g :: "'b image_t \<Rightarrow> 'b image_t \<Rightarrow> g_matrix"
  image_difference :: "'b image_t \<Rightarrow> 'b image_t \<Rightarrow> uint32_t \<times> 'b image_t"
  image_multiply :: "'b image_t \<Rightarrow> 'b image_t \<Rightarrow> int32_t"

text \<open>
  The mutable state of the point loops: the \<^verbatim>\<open>vectors\<close> array, \<^verbatim>\<open>*points_cnt\<close> and the
  compaction index \<^verbatim>\<open>new_p\<close>.
\<close>

record (overloaded) ('p::len, 'f::len) lk_state =
  vectors :: "nat \<Rightarrow> ('p, 'f) flow_t"
  points_cnt :: uint16_t
  new_p :: uint16_t

subsection \<open>Sizes, threshold and the pyramid scale (lines 94 to 109)\<close>

definition patch_size :: "uint16_t \<Rightarrow> uint16_t" where
  "patch_size hws = 2 * hws + 1"

definition error_threshold :: "uint16_t \<Rightarrow> uint32_t" where
  "error_threshold hws = (25 * 25) * (ucast (patch_size hws) * ucast (patch_size hws))"

definition padded_patch_size :: "uint16_t \<Rightarrow> uint16_t" where
  "padded_patch_size hws = patch_size hws + 2"

text \<open>\<^verbatim>\<open>uint8_t exp = 1; for (uint8_t k = 0; k != pyramid_level; k++) exp *= 2;\<close>\<close>

function exp_loop :: "uint8_t \<Rightarrow> uint8_t \<Rightarrow> uint8_t \<Rightarrow> uint8_t" where
  "exp_loop k lvl e = (if k \<noteq> lvl then exp_loop (k + 1) lvl (e * 2) else e)"
  by pat_completeness auto

lemma word_countdown: "(k::'a::len word) \<noteq> n \<Longrightarrow> unat (n - (k + 1)) < unat (n - k)"
proof -
  assume "k \<noteq> n"
  then have nz: "n - k \<noteq> 0" by simp
  have "n - (k + 1) = (n - k) - 1" by simp
  then have "unat (n - (k + 1)) = unat ((n - k) - 1)" by (rule arg_cong)
  also have "\<dots> = unat (n - k) - 1" by (rule unat_minus_one [OF nz])
  finally have "unat (n - (k + 1)) = unat (n - k) - 1" .
  moreover have "0 < unat (n - k)" using nz by (simp add: unat_gt_0)
  ultimately show ?thesis by simp
qed

termination exp_loop
  by (relation "measure (\<lambda>(k, lvl, e). unat (lvl - k))") (simp_all add: word_countdown)

declare exp_loop.simps [simp del]

definition pyramid_exp :: "uint8_t \<Rightarrow> uint8_t" where
  "pyramid_exp lvl = exp_loop 0 lvl 1"

subsection \<open>Region of interest\<close>

text \<open>
  \<^verbatim>\<open>(a - b) < c\<close> for \<^verbatim>\<open>uint16_t a, c\<close> and a coordinate \<open>b\<close>. When the coordinate type is
  narrower than \<^verbatim>\<open>int\<close>, all three operands are promoted to \<^verbatim>\<open>int\<close> and the difference can
  be negative; when it is \<^verbatim>\<open>uint32_t\<close>, the subtraction is unsigned and wraps.
\<close>

definition sub_less :: "uint16_t \<Rightarrow> 'p::len word \<Rightarrow> uint16_t \<Rightarrow> bool" where
  "sub_less a b c =
     (if LENGTH('p) < 32 then uint a - uint b < uint c
      else (ucast a - ucast b :: uint32_t) < ucast c)"

text \<open>The test of lines 131 and 132 on an input point, against the image of the level.\<close>

definition input_outside_roi :: "'b image_t \<Rightarrow> uint16_t \<Rightarrow> ('p::len) point_t \<Rightarrow> bool" where
  "input_outside_roi img hws pt =
     (unat (point_x pt) < unat hws \<or> sub_less (image_w img) (point_x pt) hws
      \<or> unat (point_y pt) < unat hws \<or> sub_less (image_h img) (point_y pt) hws)"

text \<open>
  The test of lines 179 and 180 on a candidate in subpixel units. The quotient by the
  \<^verbatim>\<open>uint32_t\<close> factor is unsigned, and so is the subtraction from the width.
\<close>

definition outside_roi :: "'b image_t \<Rightarrow> uint16_t \<Rightarrow> uint32_t \<Rightarrow> ('p::len) point_t \<Rightarrow> bool" where
  "outside_roi img hws sf np =
     ((ucast (point_x np) div sf :: uint32_t) < ucast hws
      \<or> (ucast (image_w img) - ucast (point_x np) div sf :: uint32_t) < ucast hws
      \<or> (ucast (point_y np) div sf :: uint32_t) < ucast hws
      \<or> (ucast (image_h img) - ucast (point_y np) div sf :: uint32_t) < ucast hws)"

subsection \<open>Initialisation and scaling of a vector (lines 139 to 149)\<close>

definition init_vector :: "uint8_t \<Rightarrow> uint32_t \<Rightarrow> ('p::len) point_t \<Rightarrow> ('p, 'f::len) flow_t" where
  "init_vector e sf pt =
     \<lparr>pos = \<lparr>point_x = ucast ((ucast (point_x pt) * sf) div ucast e),
             point_y = ucast ((ucast (point_y pt) * sf) div ucast e)\<rparr>,
      flow_x = 0, flow_y = 0\<rparr>"

definition double_vector :: "('p::len, 'f::len) flow_t \<Rightarrow> ('p, 'f) flow_t" where
  "double_vector v =
     \<lparr>pos = \<lparr>point_x = 2 * point_x (pos v), point_y = 2 * point_y (pos v)\<rparr>,
      flow_x = 2 * flow_x v, flow_y = 2 * flow_y v\<rparr>"

subsection \<open>The determinant (line 163)\<close>

text \<open>
  \<^verbatim>\<open>int32_t Det = ((int64_t) G[0] * G[3] - G[1] * G[2]) / subpixel_factor;\<close>
  The first product is a 64-bit one, the second a 32-bit one that is widened afterwards;
  the quotient is narrowed to 32 bits.
\<close>

definition determinant :: "g_matrix \<Rightarrow> uint32_t \<Rightarrow> int32_t" where
  "determinant G sf =
     (case G of (G0, G1, G2, G3) \<Rightarrow>
        ucast (c_sdiv ((scast G0 :: int64_t) * scast G3 - scast (G1 * G2)) (ucast sf)))"

subsection \<open>One refinement iteration (lines 176 to 212)\<close>

text \<open>
  How the body of the iteration loop ends: the two rejections (\<^verbatim>\<open>tracked = FALSE; break\<close>,
  told apart by their diagnostic), the \<^verbatim>\<open>break\<close> of the step test, or the end of the body.
\<close>

datatype iter_outcome = OutsideROI | ErrorTooLarge | Converged | NextIteration

definition candidate :: "('p::len, 'f::len) flow_t \<Rightarrow> 'p point_t" where
  "candidate v =
     \<lparr>point_x = point_x (pos v) + scast (flow_x v),
      point_y = point_y (pos v) + scast (flow_y v)\<rparr>"

text \<open>
  The linearisation of a point at a level, computed once before the loop:
  \<^verbatim>\<open>window_I\<close>, \<^verbatim>\<open>window_DX\<close>, \<^verbatim>\<open>window_DY\<close>, \<^verbatim>\<open>G\<close> and \<^verbatim>\<open>Det\<close>.
\<close>

type_synonym 'b linearisation = "'b image_t \<times> 'b image_t \<times> 'b image_t \<times> g_matrix \<times> int32_t"

text \<open>Lines 187 to 190: the window of the new image at the candidate, and its difference to \<^verbatim>\<open>window_I\<close>.\<close>

definition window_error ::
  "('b, 'p::len) lk_prims \<Rightarrow> lk_params \<Rightarrow> 'b image_t \<Rightarrow> 'b image_t \<Rightarrow> 'p point_t \<Rightarrow>
   uint32_t \<times> 'b image_t" where
  "window_error env par new_lvl window_I new_point =
     (let window_J = image_subpixel_window env new_lvl (patch_size (half_window_size par))
                       new_point (subpixel_factor par)
      in image_difference env window_I window_J)"

text \<open>Line 192: \<^verbatim>\<open>error > error_threshold && it > max_iterations / 2\<close>.\<close>

definition error_rejects :: "uint32_t \<Rightarrow> uint16_t \<Rightarrow> uint8_t \<Rightarrow> uint8_t \<Rightarrow> bool" where
  "error_rejects error hws it max_it = (error > error_threshold hws \<and> it > max_it div 2)"

text \<open>Lines 198 and 199: the vector \<^verbatim>\<open>(b_x, b_y)\<close>.\<close>

definition mismatch_vector ::
  "('b, 'p::len) lk_prims \<Rightarrow> 'b image_t \<Rightarrow> 'b image_t \<Rightarrow> 'b image_t \<Rightarrow> int32_t \<times> int32_t" where
  "mismatch_vector env window_diff window_DX window_DY =
     (c_sdiv (image_multiply env window_diff window_DX) 255,
      c_sdiv (image_multiply env window_diff window_DY) 255)"

text \<open>Lines 202 and 203: \<^verbatim>\<open>(step_x, step_y)\<close>, in 32-bit arithmetic.\<close>

definition flow_step :: "g_matrix \<Rightarrow> int32_t \<Rightarrow> int32_t \<times> int32_t \<Rightarrow> int32_t \<times> int32_t" where
  "flow_step G Det b =
     (case G of (G0, G1, G2, G3) \<Rightarrow>
      case b of (b_x, b_y) \<Rightarrow>
        (c_sdiv (G3 * b_x - G1 * b_y) Det, c_sdiv (G0 * b_y - G2 * b_x) Det))"

text \<open>Lines 205 and 206: \<^verbatim>\<open>flow_x += step_x; flow_y += step_y\<close>, in the type of the flow.\<close>

definition add_step :: "('p::len, 'f::len) flow_t \<Rightarrow> int32_t \<times> int32_t \<Rightarrow> ('p, 'f) flow_t" where
  "add_step v step = v\<lparr>flow_x := flow_x v + scast (fst step), flow_y := flow_y v + scast (snd step)\<rparr>"

text \<open>Line 210: \<^verbatim>\<open>(abs(step_x) + abs(step_y)) < step_threshold\<close>, compared as \<^verbatim>\<open>int\<close>.\<close>

definition step_converged :: "int32_t \<times> int32_t \<Rightarrow> uint8_t \<Rightarrow> bool" where
  "step_converged step thr = (c_abs (fst step) + c_abs (snd step) <s ucast thr)"

text \<open>
  The body of the loop. \<open>Det\<close> is at least 1 wherever the function calls it (line 168); a
  zero \<open>Det\<close> is still a trap of the division.
\<close>

definition lk_iteration ::
  "('b, 'p::len) lk_prims \<Rightarrow> lk_params \<Rightarrow> 'b image_t \<Rightarrow> 'b image_t \<Rightarrow> 'b linearisation \<Rightarrow>
   uint8_t \<Rightarrow> ('p, 'f::len) flow_t \<Rightarrow> lk_error + (iter_outcome \<times> ('p, 'f) flow_t)" where
  "lk_iteration env par old_lvl new_lvl lin it v =
     (case lin of (window_I, window_DX, window_DY, G, Det) \<Rightarrow>
      let new_point = candidate v in
      if subpixel_factor par = 0 then Inl DivisionByZero
      else if outside_roi old_lvl (half_window_size par) (subpixel_factor par) new_point
      then Inr (OutsideROI, v)
      else
        let (error, window_diff) = window_error env par new_lvl window_I new_point in
        if error_rejects error (half_window_size par) it (max_iterations par)
        then Inr (ErrorTooLarge, v)
        else if Det = 0 then Inl DivisionByZero
        else
          let step = flow_step G Det (mismatch_vector env window_diff window_DX window_DY);
              v' = add_step v step
          in
          if step_converged step (step_threshold par)
          then Inr (Converged, v')
          else Inr (NextIteration, v'))"

subsection \<open>The iteration loop (lines 174 to 213)\<close>

text \<open>
  \<^verbatim>\<open>for (uint8_t it = 0; it < max_iterations; it++)\<close>. The result is the flag
  \<^verbatim>\<open>tracked\<close>, the vector as the loop leaves it, and the number of times the body was
  entered (an observation the C code does not compute: \<open>it + 1\<close> at a \<^verbatim>\<open>break\<close>, \<open>it\<close> when
  the condition fails).
\<close>

function refine ::
  "('b, 'p::len) lk_prims \<Rightarrow> lk_params \<Rightarrow> 'b image_t \<Rightarrow> 'b image_t \<Rightarrow> 'b linearisation \<Rightarrow>
   uint8_t \<Rightarrow> ('p, 'f::len) flow_t \<Rightarrow> lk_error + (bool \<times> ('p, 'f) flow_t \<times> nat)" where
  "refine env par old_lvl new_lvl lin it v =
     (if it < max_iterations par then
        (case lk_iteration env par old_lvl new_lvl lin it v of
           Inl e \<Rightarrow> Inl e
         | Inr (OutsideROI, v') \<Rightarrow> Inr (False, v', unat it + 1)
         | Inr (ErrorTooLarge, v') \<Rightarrow> Inr (False, v', unat it + 1)
         | Inr (Converged, v') \<Rightarrow> Inr (True, v', unat it + 1)
         | Inr (NextIteration, v') \<Rightarrow> refine env par old_lvl new_lvl lin (it + 1) v')
      else Inr (True, v, unat it))"
  by pat_completeness auto

lemma unat_word_succ: "(i::'a::len word) \<noteq> - 1 \<Longrightarrow> unat (i + 1) = Suc (unat i)"
proof -
  assume "i \<noteq> - 1"
  then have "1 + i \<noteq> 0" by (simp add: add_eq_0_iff)
  then have "unat (1 + i) = Suc (unat i)" by (rule unatSuc)
  then show ?thesis by (simp add: add.commute)
qed

lemma word_less_not_max: "(i::'a::len word) < n \<Longrightarrow> i \<noteq> - 1"
proof
  assume "i < n" and "i = - 1"
  then have "(- 1 :: 'a word) < n" by simp
  moreover have "n \<le> - 1" by simp
  ultimately show False by simp
qed

lemma word_countup: "(i::'a::len word) < n \<Longrightarrow> unat n - unat (i + 1) < unat n - unat i"
proof -
  assume lt: "i < n"
  then have "unat (i + 1) = Suc (unat i)" by (simp add: unat_word_succ word_less_not_max)
  moreover have "unat i < unat n" using lt by (simp add: word_less_nat_alt)
  ultimately show ?thesis by simp
qed

termination refine
  by (relation "measure (\<lambda>(env, par, old_lvl, new_lvl, lin, it, v). unat (max_iterations par) - unat it)")
     (simp_all add: word_countup)

declare refine.simps [simp del]

subsection \<open>One point at one level (lines 125 to 219)\<close>

text \<open>
  Lines 153 to 163: the window of the old image at the position of the vector, its gradients,
  the matrix \<^verbatim>\<open>G\<close> and the determinant. The caller has excluded a zero factor.
\<close>

definition linearise ::
  "('b, 'p::len) lk_prims \<Rightarrow> lk_params \<Rightarrow> 'b image_t \<Rightarrow> 'p point_t \<Rightarrow> 'b linearisation" where
  "linearise env par old_lvl c =
     (let window_I = image_subpixel_window env old_lvl (padded_patch_size (half_window_size par))
                       c (subpixel_factor par);
          (window_DX, window_DY) = image_gradients env window_I;
          G = image_calculate_g env window_DX window_DY
      in (window_I, window_DX, window_DY, G, determinant G (subpixel_factor par)))"

definition lin_G :: "'b linearisation \<Rightarrow> g_matrix" where
  "lin_G lin = fst (snd (snd (snd lin)))"

definition lin_Det :: "'b linearisation \<Rightarrow> int32_t" where
  "lin_Det lin = snd (snd (snd (snd lin)))"

text \<open>
  Lines 215 to 219, after the loop: the vector stays in slot \<^verbatim>\<open>new_p\<close> as the loop left it;
  a tracked point advances \<^verbatim>\<open>new_p\<close> and \<^verbatim>\<open>*points_cnt\<close>.
\<close>

definition finish_point ::
  "('p::len, 'f::len) lk_state \<Rightarrow> lk_error + (bool \<times> ('p, 'f) flow_t \<times> nat) \<Rightarrow>
   lk_error + ('p, 'f) lk_state" where
  "finish_point st r =
     (case r of
        Inl e \<Rightarrow> Inl e
      | Inr (tracked, v', n) \<Rightarrow>
          (let st' = st\<lparr>vectors := (vectors st)(unat (new_p st) := v')\<rparr> in
           if tracked
           then Inr (st'\<lparr>new_p := new_p st + 1, points_cnt := points_cnt st + 1\<rparr>)
           else Inr st'))"

text \<open>
  Lines 152 to 219: linearise at the vector in slot \<^verbatim>\<open>new_p\<close>, skip the point when the
  determinant is below 1 (\<^verbatim>\<open>continue\<close>), else refine and count.
\<close>

definition track_vector ::
  "('b, 'p::len) lk_prims \<Rightarrow> lk_params \<Rightarrow> 'b image_t \<Rightarrow> 'b image_t \<Rightarrow> ('p, 'f::len) lk_state \<Rightarrow>
   lk_error + ('p, 'f) lk_state" where
  "track_vector env par old_lvl new_lvl st =
     (let v = vectors st (unat (new_p st)) in
      if subpixel_factor par = 0 then Inl DivisionByZero
      else
        let lin = linearise env par old_lvl (pos v) in
        if lin_Det lin <s 1 then Inr st
        else finish_point st (refine env par old_lvl new_lvl lin 0 v))"

text \<open>
  The body of the point loop for the index \<open>i\<close> at the level \<open>LVL\<close>. \<^verbatim>\<open>LVL\<close> is an
  \<^verbatim>\<open>int8_t\<close> and \<^verbatim>\<open>pyramid_level\<close> a \<^verbatim>\<open>uint8_t\<close>: both are compared as \<^verbatim>\<open>int\<close>.
\<close>

definition track_point ::
  "('b, 'p::len) lk_prims \<Rightarrow> lk_params \<Rightarrow> (nat \<Rightarrow> 'b image_t) \<Rightarrow> (nat \<Rightarrow> 'b image_t) \<Rightarrow>
   (nat \<Rightarrow> 'p point_t) \<Rightarrow> uint8_t \<Rightarrow> int8_t \<Rightarrow> uint16_t \<Rightarrow> ('p, 'f::len) lk_state \<Rightarrow>
   lk_error + ('p, 'f) lk_state" where
  "track_point env par pyramid_old pyramid_new points e LVL i st =
     (let p = i in
      if sint LVL < 0 then Inl PyramidIndexOutOfRange
      else
        let old_lvl = pyramid_old (nat (sint LVL));
            new_lvl = pyramid_new (nat (sint LVL))
        in
        if sint LVL = uint (pyramid_level par) then
          if input_outside_roi old_lvl (half_window_size par) (points (unat p)) then Inr st
          else if e = 0 then Inl DivisionByZero
          else track_vector env par old_lvl new_lvl
                 (st\<lparr>vectors := (vectors st)
                    (unat (new_p st) := init_vector e (subpixel_factor par) (points (unat p)))\<rparr>)
        else track_vector env par old_lvl new_lvl
               (st\<lparr>vectors := (vectors st)
                  (unat (new_p st) := double_vector (vectors st (unat (new_p st))))\<rparr>))"

subsection \<open>The point loop and the level loop (lines 111 to 222)\<close>

text \<open>\<^verbatim>\<open>for (uint16_t i = 0; i < max_points && i < points_orig; i++)\<close>\<close>

function points_loop ::
  "('b, 'p::len) lk_prims \<Rightarrow> lk_params \<Rightarrow> (nat \<Rightarrow> 'b image_t) \<Rightarrow> (nat \<Rightarrow> 'b image_t) \<Rightarrow>
   (nat \<Rightarrow> 'p point_t) \<Rightarrow> uint8_t \<Rightarrow> int8_t \<Rightarrow> uint16_t \<Rightarrow> uint16_t \<Rightarrow> ('p, 'f::len) lk_state \<Rightarrow>
   lk_error + ('p, 'f) lk_state" where
  "points_loop env par pyramid_old pyramid_new points e LVL points_orig i st =
     (if i < max_points par \<and> i < points_orig then
        (case track_point env par pyramid_old pyramid_new points e LVL i st of
           Inl err \<Rightarrow> Inl err
         | Inr st' \<Rightarrow> points_loop env par pyramid_old pyramid_new points e LVL points_orig (i + 1) st')
      else Inr st)"
  by pat_completeness auto

termination points_loop
  by (relation "measure (\<lambda>(env, par, pyramid_old, pyramid_new, points, e, LVL, points_orig, i, st).
        unat (max_points par) - unat i)")
     (simp_all add: word_countup)

declare points_loop.simps [simp del]

text \<open>One pass of the level loop's body: lines 113, 114, 121 and the point loop.\<close>

definition level_pass ::
  "('b, 'p::len) lk_prims \<Rightarrow> lk_params \<Rightarrow> (nat \<Rightarrow> 'b image_t) \<Rightarrow> (nat \<Rightarrow> 'b image_t) \<Rightarrow>
   (nat \<Rightarrow> 'p point_t) \<Rightarrow> uint8_t \<Rightarrow> int8_t \<Rightarrow> ('p, 'f::len) lk_state \<Rightarrow>
   lk_error + ('p, 'f) lk_state" where
  "level_pass env par pyramid_old pyramid_new points e LVL st =
     (let points_orig = points_cnt st in
      points_loop env par pyramid_old pyramid_new points e LVL points_orig 0
        (st\<lparr>points_cnt := 0, new_p := 0\<rparr>))"

text \<open>\<^verbatim>\<open>for (int8_t LVL = pyramid_level; LVL != -1; LVL--)\<close>\<close>

function levels_loop ::
  "('b, 'p::len) lk_prims \<Rightarrow> lk_params \<Rightarrow> (nat \<Rightarrow> 'b image_t) \<Rightarrow> (nat \<Rightarrow> 'b image_t) \<Rightarrow>
   (nat \<Rightarrow> 'p point_t) \<Rightarrow> uint8_t \<Rightarrow> int8_t \<Rightarrow> ('p, 'f::len) lk_state \<Rightarrow>
   lk_error + ('p, 'f) lk_state" where
  "levels_loop env par pyramid_old pyramid_new points e LVL st =
     (if LVL \<noteq> - 1 then
        (case level_pass env par pyramid_old pyramid_new points e LVL st of
           Inl err \<Rightarrow> Inl err
         | Inr st' \<Rightarrow> levels_loop env par pyramid_old pyramid_new points e (LVL - 1) st')
      else Inr st)"
  by pat_completeness auto

lemma word_countdown_to_minus_one: "(l::'a::len word) \<noteq> - 1 \<Longrightarrow> unat l < unat (l + 1)"
  by (simp add: unat_word_succ)

termination levels_loop
  by (relation "measure (\<lambda>(env, par, pyramid_old, pyramid_new, points, e, LVL, st). unat (LVL + 1))")
     (simp_all add: word_countdown_to_minus_one)

declare levels_loop.simps [simp del]

subsection \<open>The clean-up loop (lines 231 to 234)\<close>

text \<open>
  \<^verbatim>\<open>for (uint8_t i = 0; i != pyramid_level + 1; i++)\<close> frees the two pyramids and writes
  nothing to the results. The comparison is one of \<^verbatim>\<open>int\<close>s, so for
  \<^verbatim>\<open>pyramid_level = 255\<close> the 8-bit counter never equals 256 and the loop does not end: it is
  a partial function, \<open>None\<close> where it does not return.
\<close>

partial_function (option) free_loop :: "uint8_t \<Rightarrow> uint8_t \<Rightarrow> unit option" where
  "free_loop i lvl = (if uint i \<noteq> uint lvl + 1 then free_loop (i + 1) lvl else Some ())"

subsection \<open>The function\<close>

text \<open>
  \<open>vectors0\<close> is the content of the freshly allocated \<^verbatim>\<open>vectors\<close> array and \<open>cnt\<close> the
  value of \<^verbatim>\<open>*points_cnt\<close> at the call. A call that returns gives \<open>Some (Inr r)\<close>, with \<open>r\<close> the
  array and the final \<^verbatim>\<open>*points_cnt\<close>; a call stopped by a fault in the level loop gives
  \<open>Some (Inl err)\<close>; a call whose clean-up loop does not end gives \<open>None\<close>.
\<close>

definition opticFlowLK ::
  "('b, 'p::len) lk_prims \<Rightarrow> lk_params \<Rightarrow> 'b image_t \<Rightarrow> 'b image_t \<Rightarrow> (nat \<Rightarrow> 'p point_t) \<Rightarrow>
   uint16_t \<Rightarrow> (nat \<Rightarrow> ('p, 'f::len) flow_t) \<Rightarrow>
   (lk_error + ((nat \<Rightarrow> ('p, 'f) flow_t) \<times> uint16_t)) option" where
  "opticFlowLK env par new_img old_img points cnt vectors0 =
     (let pyramid_old = pyramid_build env old_img (pyramid_level par);
          pyramid_new = pyramid_build env new_img (pyramid_level par);
          e = pyramid_exp (pyramid_level par)
      in
      case levels_loop env par pyramid_old pyramid_new points e (pyramid_level par)
             \<lparr>vectors = vectors0, points_cnt = cnt, new_p = 0\<rparr> of
        Inl err \<Rightarrow> Some (Inl err)
      | Inr st \<Rightarrow>
          (case free_loop 0 (pyramid_level par) of
             None \<Rightarrow> None
           | Some u \<Rightarrow> Some (Inr (vectors st, points_cnt st))))"

section \<open>A synthetic scene\<close>

text \<open>
  Concrete arguments on which the theorems below are instantiated. The images are 100 by 100
  and halve per level; a window records the subpixel abscissa it was sampled at; the scene is
  textureless (a zero \<^verbatim>\<open>G\<close>) exactly where a window is centred at the subpixel abscissa 400,
  and the two frames are identical (zero difference), so every step is zero.
\<close>

definition demo_prims :: "(nat, 16) lk_prims" where
  "demo_prims =
     \<lparr>pyramid_build = (\<lambda>img n k. \<lparr>image_w = image_w img div 2 ^ k, image_h = image_h img div 2 ^ k,
                                       image_buf = image_buf img\<rparr>),
      image_subpixel_window = (\<lambda>img size c sf. \<lparr>image_w = size, image_h = size, image_buf = unat (point_x c)\<rparr>),
      image_gradients = (\<lambda>win. (win, win)),
      image_calculate_g = (\<lambda>dx dy. if image_buf dx = 400 then (0, 0, 0, 0) else (100, 0, 0, 100)),
      image_difference = (\<lambda>a b. (0, a)),
      image_multiply = (\<lambda>a b. 0)\<rparr>"

definition demo_par :: lk_params where
  "demo_par = \<lparr>half_window_size = 5, subpixel_factor = 10, max_iterations = 10, step_threshold = 1,
     max_points = 10, pyramid_level = 1\<rparr>"

definition demo_img :: "nat image_t" where
  "demo_img = \<lparr>image_w = 100, image_h = 100, image_buf = 0\<rparr>"

definition demo_points :: "nat \<Rightarrow> 16 point_t" where
  "demo_points i = (if i = 0 then \<lparr>point_x = 40, point_y = 40\<rparr> else \<lparr>point_x = 30, point_y = 30\<rparr>)"

definition demo_vectors :: "nat \<Rightarrow> (16, 16) flow_t" where
  "demo_vectors i = \<lparr>pos = \<lparr>point_x = 0, point_y = 0\<rparr>, flow_x = 0, flow_y = 0\<rparr>"

definition demo_state :: "(16, 16) lk_state" where
  "demo_state = \<lparr>vectors = demo_vectors, points_cnt = 2, new_p = 0\<rparr>"

text \<open>The level images of the scene, and a point of level 1 with its linearisation.\<close>

definition demo_level :: "nat \<Rightarrow> nat image_t" where
  "demo_level k = pyramid_build demo_prims demo_img 1 k"

definition demo_vec :: "(16, 16) flow_t" where
  "demo_vec = \<lparr>pos = \<lparr>point_x = 150, point_y = 150\<rparr>, flow_x = 0, flow_y = 0\<rparr>"

definition demo_win :: "nat image_t" where
  "demo_win = \<lparr>image_w = 13, image_h = 13, image_buf = 150\<rparr>"

definition demo_lin :: "nat linearisation" where
  "demo_lin = (demo_win, demo_win, demo_win, (100, 0, 0, 100), 1000)"

text \<open>A state whose every slot holds that point.\<close>

definition demo_state1 :: "(16, 16) lk_state" where
  "demo_state1 = \<lparr>vectors = (\<lambda>i. demo_vec), points_cnt = 0, new_p = 0\<rparr>"

text \<open>
  The state of the scene after the pass of level 1 on the two points \<open>(40, 40)\<close> and
  \<open>(30, 30)\<close>: both are tracked, slot 0 holds the estimate 200 and slot 1 the estimate 150.
\<close>

definition demo_fine_state :: "(16, 16) lk_state" where
  "demo_fine_state =
     \<lparr>vectors = demo_vectors(0 := \<lparr>pos = \<lparr>point_x = 200, point_y = 200\<rparr>, flow_x = 0, flow_y = 0\<rparr>,
                             1 := demo_vec),
      points_cnt = 2, new_p = 2\<rparr>"

text \<open>An input point three pixels from the right edge of the frame.\<close>

definition demo_border_point :: "16 point_t" where
  "demo_border_point = \<lparr>point_x = 97, point_y = 40\<rparr>"

text \<open>
  Variants of the scene: one whose frames differ everywhere by more than the error threshold,
  and one whose mismatch sums give the step 360 at the subpixel abscissa 150 and zero elsewhere
  (the difference image records the abscissa of the candidate).
\<close>

definition demo_prims_noisy :: "(nat, 16) lk_prims" where
  "demo_prims_noisy = demo_prims\<lparr>image_difference := (\<lambda>a b. (1000000, a))\<rparr>"

definition demo_prims_moving :: "(nat, 16) lk_prims" where
  "demo_prims_moving = demo_prims
     \<lparr>image_difference := (\<lambda>a b. (0, b)),
      image_multiply := (\<lambda>a b. if image_buf a = 150 then 918000 else 0)\<rparr>"

section \<open>Machine arithmetic\<close>

text \<open>Signed division, casts and absolute values of words, read in the integers.\<close>

lemma sdiv_abs_le: "\<bar>(a::int) sdiv b\<bar> \<le> \<bar>a\<bar>"
proof -
  have nn: "0 \<le> \<bar>a\<bar> div \<bar>b\<bar>" by (simp add: div_int_pos_iff)
  have "\<bar>a sdiv b\<bar> = \<bar>sgn a\<bar> * \<bar>sgn b\<bar> * (\<bar>a\<bar> div \<bar>b\<bar>)"
    using nn by (simp add: signed_divide_int_def abs_mult)
  also have "\<dots> \<le> 1 * 1 * (\<bar>a\<bar> div \<bar>b\<bar>)"
    using nn by (intro mult_mono) (simp_all add: abs_sgn_eq)
  also have "\<dots> \<le> \<bar>a\<bar>"
    by (cases "a = 0") (simp_all add: int_div_le_self)
  finally show ?thesis .
qed

lemma sdiv_nonpos: "0 < (b::int) \<Longrightarrow> a \<le> 0 \<Longrightarrow> a sdiv b \<le> 0"
proof -
  assume b: "0 < b" and a: "a \<le> 0"
  have nn: "0 \<le> \<bar>a\<bar> div \<bar>b\<bar>" by (simp add: div_int_pos_iff)
  have "a sdiv b = sgn a * (\<bar>a\<bar> div \<bar>b\<bar>)" using b by (simp add: signed_divide_int_def)
  moreover have "sgn a \<le> 0" using a by (simp add: sgn_if)
  ultimately show ?thesis using nn by (simp add: mult_le_0_iff)
qed

lemma sint_word_of_int_eq:
  "- (2 ^ (LENGTH('a::len) - 1)) \<le> k \<Longrightarrow> k < 2 ^ (LENGTH('a) - 1) \<Longrightarrow> sint (word_of_int k :: 'a word) = k"
  by (simp add: sint_sbintrunc' signed_take_bit_int_eq_self)

lemma sint_c_sdiv_pos:
  assumes b: "0 < sint b"
  shows "sint (c_sdiv a b :: 'a::len word) = sint a sdiv sint b"
proof -
  have lo: "- (2 ^ (LENGTH('a) - 1)) \<le> sint a" by (rule sint_ge)
  have hi: "sint a < 2 ^ (LENGTH('a) - 1)" by (rule sint_lt)
  have ab: "\<bar>sint a sdiv sint b\<bar> \<le> \<bar>sint a\<bar>" by (rule sdiv_abs_le)
  have "sint a sdiv sint b < 2 ^ (LENGTH('a) - 1)"
  proof (cases "sint a \<le> 0")
    case True
    then have "sint a sdiv sint b \<le> 0" using b by (intro sdiv_nonpos)
    moreover have "(0::int) < 2 ^ (LENGTH('a) - 1)" by simp
    ultimately show ?thesis by linarith
  next
    case False
    then show ?thesis using ab hi by linarith
  qed
  moreover have "- (2 ^ (LENGTH('a) - 1)) \<le> sint a sdiv sint b"
    using lo hi ab by linarith
  ultimately show ?thesis
    unfolding c_sdiv_def by (intro sint_word_of_int_eq) simp_all
qed


lemma sint_c_abs: "sint a \<noteq> - (2 ^ 31) \<Longrightarrow> sint (c_abs a) = \<bar>sint a\<bar>"
proof -
  assume ne: "sint a \<noteq> - (2 ^ 31)"
  have lo: "- (2 ^ 31) \<le> sint a" using sint_ge [of a] by simp
  have hi: "sint a < 2 ^ 31" using sint_lt [of a] by simp
  have "- a = word_of_int (- sint a)" by simp
  then have "sint (- a) = sint (word_of_int (- sint a) :: 32 word)" by simp
  also have "\<dots> = - sint a" using lo hi ne by (intro sint_word_of_int_eq) simp_all
  finally show ?thesis by (simp add: c_abs_def word_sless_alt)
qed

lemma sint_ucast_up:
  assumes "LENGTH('b::len) < LENGTH('c::len)"
  shows "sint (ucast (w :: 'b word) :: 'c word) = uint w"
proof -
  have "uint w < 2 ^ LENGTH('b)" by simp
  also have "(2::int) ^ LENGTH('b) \<le> 2 ^ (LENGTH('c) - 1)"
    using assms by (intro power_increasing) simp_all
  finally have hi: "uint w < 2 ^ (LENGTH('c) - 1)" .
  have "- (2 ^ (LENGTH('c) - 1)) \<le> (0::int)" by simp
  also have "0 \<le> uint w" by simp
  finally have lo: "- (2 ^ (LENGTH('c) - 1)) \<le> uint w" .
  have "signed_take_bit (LENGTH('c) - 1) (uint w) = uint w"
    using lo hi by (rule signed_take_bit_int_eq_self)
  then show ?thesis by (simp add: signed_ucast_eq)
qed

lemma sint_scast_up:
  assumes "LENGTH('b::len) \<le> LENGTH('c::len)"
  shows "sint (scast (w :: 'b word) :: 'c word) = sint w"
proof -
  have le: "(2::int) ^ (LENGTH('b) - 1) \<le> 2 ^ (LENGTH('c) - 1)"
    using assms by (intro power_increasing) simp_all
  have "sint w < 2 ^ (LENGTH('b) - 1)" by (rule sint_lt)
  then have hi: "sint w < 2 ^ (LENGTH('c) - 1)" using le by linarith
  have "- (2 ^ (LENGTH('b) - 1)) \<le> sint w" by (rule sint_ge)
  then have lo: "- (2 ^ (LENGTH('c) - 1)) \<le> sint w" using le by linarith
  have "signed_take_bit (LENGTH('c) - 1) (sint w) = sint w"
    using lo hi by (rule signed_take_bit_int_eq_self)
  then show ?thesis by (simp add: signed_scast_eq)
qed

lemma unat_ucast_mod: "unat (ucast w :: 'c::len word) = unat w mod 2 ^ LENGTH('c)"
  by (simp add: unsigned_ucast_eq take_bit_eq_mod)

lemma unat_ucast_up:
  assumes "LENGTH('b::len) \<le> LENGTH('c::len)"
  shows "unat (ucast (w :: 'b word) :: 'c word) = unat w"
proof -
  have "unat w < 2 ^ LENGTH('b)" by simp
  also have "(2::nat) ^ LENGTH('b) \<le> 2 ^ LENGTH('c)" using assms by simp
  finally show ?thesis by (simp add: unat_ucast_mod)
qed

lemma sint_int32_exact:
  assumes "w = word_of_int k" and "in_int32 k"
  shows "sint (w :: int32_t) = k"
  using assms unfolding in_int32_def by (simp add: sint_word_of_int_eq)

lemma sint_flow_add:
  assumes "- (2 ^ (LENGTH('f::len) - 1)) \<le> sint (a :: 'f word) + sint (s :: int32_t)"
    and "sint a + sint s < 2 ^ (LENGTH('f) - 1)"
  shows "sint (a + scast s) = sint a + sint s"
proof -
  have e: "a + scast s = word_of_int (sint a + sint s)" by simp
  show ?thesis unfolding e using assms by (rule sint_word_of_int_eq)
qed

lemma sint_sub_mult_exact:
  assumes "in_int32 (sint a * sint b - sint c * sint d)"
  shows "sint (a * b - c * d :: int32_t) = sint a * sint b - sint c * sint d"
  by (rule sint_int32_exact [OF _ assms]) simp

lemma down_ucast_scast: "(ucast (w :: int64_t) :: int32_t) = scast w"
  by (rule bit_word_eqI) (auto simp add: bit_simps)

lemma abs_prod_int32:
  assumes "\<bar>a::int\<bar> \<le> 2 ^ 31" and "\<bar>b\<bar> \<le> 2 ^ 31"
  shows "\<bar>a * b\<bar> \<le> 2 ^ 62"
proof -
  have "\<bar>a * b\<bar> = \<bar>a\<bar> * \<bar>b\<bar>" by (rule abs_mult)
  also have "\<dots> \<le> 2 ^ 31 * 2 ^ 31" using assms by (intro mult_mono) simp_all
  finally show ?thesis by simp
qed

lemma abs_sint32: "\<bar>sint (w :: int32_t)\<bar> \<le> 2 ^ 31"
  using sint_ge [of w] sint_lt [of w] by simp

lemma unat_less_uint: "(unat (a::'a::len word) < unat (b::'b::len word)) = (uint a < uint b)"
proof -
  have "(uint a < uint b) = (int (unat a) < int (unat b))" by (simp only: of_nat_unat)
  also have "\<dots> = (unat a < unat b)" by (rule of_nat_less_iff)
  finally show ?thesis by (rule sym)
qed

section \<open>The clean-up loop\<close>

text \<open>The loop ends for every \<open>pyramid_level\<close> but 255, and for 255 it does not.\<close>

lemma free_loop_from:
  "uint i \<le> uint lvl + 1 \<Longrightarrow> lvl \<noteq> 255 \<Longrightarrow> free_loop i lvl = Some ()"
proof (induction "nat (uint lvl + 1 - uint i)" arbitrary: i)
  case 0
  then have "uint i = uint lvl + 1" by simp
  then show ?case by (subst free_loop.simps) simp
next
  case (Suc n)
  then have lt: "uint i < uint lvl + 1" by linarith
  have "uint lvl < 256" using uint_lt2p [of lvl] by simp
  moreover have "uint lvl \<noteq> 255" using Suc.prems(2) by (simp add: word_uint_eq_iff)
  ultimately have i255: "uint i < 255" using lt by linarith
  then have s: "uint (i + 1) = uint i + 1"
    by (simp add: uint_word_ariths)
  have "free_loop (i + 1) lvl = Some ()"
    using Suc lt s by (intro Suc.hyps(1)) simp_all
  then show ?case using lt by (subst free_loop.simps) simp
qed

lemma free_loop_returns: "lvl \<noteq> 255 \<Longrightarrow> free_loop 0 lvl = Some ()"
  by (rule free_loop_from) simp_all

lemma free_loop_some:
  assumes "free_loop i lvl = Some u"
  shows "lvl \<noteq> 255"
proof (rule free_loop.raw_induct [where P = "\<lambda>i lvl u. lvl \<noteq> 255", OF _ assms])
  fix f :: "uint8_t \<Rightarrow> uint8_t \<Rightarrow> unit option" and j l :: uint8_t and y :: unit
  assume ih: "\<And>i lvl u. f i lvl = Some u \<Longrightarrow> lvl \<noteq> 255"
    and body: "(if uint j \<noteq> uint l + 1 then f (j + 1) l else Some ()) = Some y"
  show "l \<noteq> 255"
  proof (cases "uint j \<noteq> uint l + 1")
    case True
    then have "f (j + 1) l = Some y" using body by simp
    then show ?thesis by (rule ih)
  next
    case False
    have "uint j < 256" using uint_lt2p [of j] by simp
    then have "uint l \<noteq> 255" using False by linarith
    then show ?thesis by auto
  qed
qed

lemma free_loop_diverges: "free_loop i 255 = None"
proof (cases "free_loop i 255")
  case None
  then show ?thesis .
next
  case (Some u)
  then have "(255 :: uint8_t) \<noteq> 255" by (rule free_loop_some)
  then show ?thesis by simp
qed

text \<open>
  So a call returns, or stops at a fault of the level loop, for every \<open>pyramid_level\<close> but
  255; for 255 the level loop is not entered (\<^verbatim>\<open>LVL\<close> starts at \<open>-1\<close>) and the call does not return.
\<close>

lemma opticFlowLK_returns:
  assumes "pyramid_level par \<noteq> 255"
  shows "\<exists>r. opticFlowLK env par new_img old_img points cnt vectors0 = Some r"
  using assms by (simp add: opticFlowLK_def Let_def free_loop_returns split: sum.splits)

lemma opticFlowLK_no_return:
  assumes "pyramid_level par = 255"
  shows "opticFlowLK env par new_img old_img points cnt vectors0 = None"
proof -
  have m: "pyramid_level par = - 1" using assms by simp
  have l: "\<And>pyramid_old pyramid_new e st.
      levels_loop env par pyramid_old pyramid_new points e (- 1) st = Inr st"
    by (subst levels_loop.simps) simp
  have "(- 1 :: uint8_t) = 255" by simp
  then have f: "free_loop 0 (- 1) = None" using free_loop_diverges [of 0] by (simp only:)
  show ?thesis unfolding opticFlowLK_def Let_def m l f by simp
qed

section \<open>The pyramid scale\<close>

lemma unat_sub_succ: "(k::'a::len word) \<noteq> n \<Longrightarrow> unat (n - k) = Suc (unat (n - (k + 1)))"
proof -
  assume "k \<noteq> n"
  then have nz: "n - k \<noteq> 0" by simp
  have "n - (k + 1) = (n - k) - 1" by simp
  then have "unat (n - (k + 1)) = unat ((n - k) - 1)" by (rule arg_cong)
  also have "\<dots> = unat (n - k) - 1" by (rule unat_minus_one [OF nz])
  finally have "unat (n - (k + 1)) = unat (n - k) - 1" .
  moreover have "0 < unat (n - k)" using nz by (simp add: unat_gt_0)
  ultimately show ?thesis by simp
qed

lemma exp_loop_eq: "exp_loop k lvl e = e * 2 ^ unat (lvl - k)"
proof (induction k lvl e rule: exp_loop.induct)
  case (1 k lvl e)
  show ?case
  proof (cases "k = lvl")
    case True
    then show ?thesis by (simp add: exp_loop.simps)
  next
    case False
    then have "exp_loop k lvl e = exp_loop (k + 1) lvl (e * 2)" by (subst exp_loop.simps) simp
    also have "\<dots> = e * 2 * 2 ^ unat (lvl - (k + 1))" using 1 False by simp
    also have "\<dots> = e * 2 ^ unat (lvl - k)" using unat_sub_succ [OF False] by simp
    finally show ?thesis .
  qed
qed

lemma pyramid_exp_eq: "pyramid_exp lvl = 2 ^ unat lvl"
  by (simp add: pyramid_exp_def exp_loop_eq)

lemma unat_two_power: "n < LENGTH('a::len) \<Longrightarrow> unat ((2::'a word) ^ n) = 2 ^ n"
proof -
  assume n: "n < LENGTH('a)"
  have "(2::'a word) ^ n = word_of_nat (2 ^ n)" by simp
  then have "unat ((2::'a word) ^ n) = 2 ^ n mod 2 ^ LENGTH('a)" by (simp only: unat_of_nat)
  also have "\<dots> = 2 ^ n" using n by simp
  finally show ?thesis .
qed

lemma pyramid_exp_small: "unat lvl \<le> 7 \<Longrightarrow> unat (pyramid_exp lvl) = 2 ^ unat lvl"
  by (simp add: pyramid_exp_eq unat_two_power)

lemma pyramid_exp_zero_iff: "pyramid_exp lvl = 0 \<longleftrightarrow> 8 \<le> unat lvl"
  by (simp add: pyramid_exp_eq)

lemma track_point_exp_zero:
  assumes "sint LVL = uint (pyramid_level par)" and "0 \<le> sint LVL"
    and "\<not> input_outside_roi (pyramid_old (nat (sint LVL))) (half_window_size par) (points (unat i))"
  shows "track_point env par pyramid_old pyramid_new points 0 LVL i st = Inl DivisionByZero"
  using assms by (simp add: track_point_def)


text \<open>
  Claim C10. The divisor of the coarsest-level initialisation is computed by repeated doubling
  in \<^verbatim>\<open>uint8_t\<close>. For a pyramid level of at most 7 it is exactly \<open>2 ^ pyramid_level\<close> and not
  zero. At the pyramid level 8 it has wrapped to 0, and the initialisation of a point that
  passed the region-of-interest test divides by zero.
\<close>

theorem C10_pyramid_exp:
  "(unat lvl \<le> 7 \<longrightarrow> unat (pyramid_exp lvl) = 2 ^ unat lvl \<and> pyramid_exp lvl \<noteq> 0)
   \<and> pyramid_exp 8 = 0
   \<and> (pyramid_level par = 8
        \<and> \<not> input_outside_roi (pyramid_old 8) (half_window_size par) (points (unat i))
      \<longrightarrow> track_point env par pyramid_old pyramid_new points (pyramid_exp (pyramid_level par)) 8 i st
            = Inl DivisionByZero)"
proof (intro conjI impI)
  assume "unat lvl \<le> 7"
  then show "unat (pyramid_exp lvl) = 2 ^ unat lvl" by (rule pyramid_exp_small)
next
  assume "unat lvl \<le> 7"
  then show "pyramid_exp lvl \<noteq> 0" by (simp add: pyramid_exp_zero_iff)
next
  show "pyramid_exp 8 = 0" by (simp add: pyramid_exp_zero_iff)
next
  assume a: "pyramid_level par = 8
        \<and> \<not> input_outside_roi (pyramid_old 8) (half_window_size par) (points (unat i))"
  have e: "pyramid_exp (pyramid_level par) = 0" using a by (simp add: pyramid_exp_zero_iff)
  show "track_point env par pyramid_old pyramid_new points (pyramid_exp (pyramid_level par)) 8 i st
            = Inl DivisionByZero"
    unfolding e using a by (intro track_point_exp_zero) simp_all
qed

theorem C10_pyramid_exp_witness:
  "unat (pyramid_exp 7) = 128 \<and> pyramid_exp 7 \<noteq> 0 \<and> pyramid_exp 8 = 0
   \<and> \<not> input_outside_roi demo_img 5 (demo_points 0)
   \<and> track_point demo_prims (demo_par\<lparr>pyramid_level := 8\<rparr>) (\<lambda>k. demo_img) (\<lambda>k. demo_img)
         demo_points (pyramid_exp 8) 8 0 demo_state = Inl DivisionByZero"
  using C10_pyramid_exp [where lvl = 7 and par = "demo_par\<lparr>pyramid_level := 8\<rparr>"
      and pyramid_old = "\<lambda>k. demo_img" and pyramid_new = "\<lambda>k. demo_img" and points = demo_points
      and i = 0 and env = demo_prims and st = demo_state]
  by (simp add: demo_par_def demo_img_def demo_points_def input_outside_roi_def sub_less_def pyramid_exp_eq)

lemmas model_defs =
  lk_iteration_def window_error_def error_rejects_def mismatch_vector_def flow_step_def add_step_def
  step_converged_def candidate_def outside_roi_def input_outside_roi_def sub_less_def
  patch_size_def padded_patch_size_def error_threshold_def determinant_def c_sdiv_def c_abs_def
  linearise_def lin_Det_def lin_G_def finish_point_def track_vector_def track_point_def
  level_pass_def opticFlowLK_def init_vector_def double_vector_def pyramid_exp_eq
  signed_divide_int_def word_sless_alt Let_def

lemmas demo_defs =
  demo_prims_def demo_prims_noisy_def demo_prims_moving_def demo_par_def demo_img_def
  demo_points_def demo_vectors_def demo_state_def demo_level_def demo_vec_def demo_win_def
  demo_lin_def demo_state1_def demo_border_point_def demo_fine_state_def

section \<open>One refinement iteration\<close>

lemma lk_iteration_roi:
  assumes "subpixel_factor par \<noteq> 0"
    and "outside_roi old_lvl (half_window_size par) (subpixel_factor par) (candidate v)"
  shows "lk_iteration env par old_lvl new_lvl lin it v = Inr (OutsideROI, v)"
  using assms by (simp add: lk_iteration_def split: prod.splits)

lemma lk_iteration_error:
  assumes "subpixel_factor par \<noteq> 0"
    and "\<not> outside_roi old_lvl (half_window_size par) (subpixel_factor par) (candidate v)"
    and "window_error env par new_lvl window_I (candidate v) = (error, window_diff)"
    and "error_rejects error (half_window_size par) it (max_iterations par)"
  shows "lk_iteration env par old_lvl new_lvl (window_I, window_DX, window_DY, G, Det) it v = Inr (ErrorTooLarge, v)"
  using assms by (simp add: lk_iteration_def)

lemma lk_iteration_step:
  assumes "subpixel_factor par \<noteq> 0"
    and "\<not> outside_roi old_lvl (half_window_size par) (subpixel_factor par) (candidate v)"
    and "window_error env par new_lvl window_I (candidate v) = (error, window_diff)"
    and "\<not> error_rejects error (half_window_size par) it (max_iterations par)"
    and "Det \<noteq> 0"
    and "step = flow_step G Det (mismatch_vector env window_diff window_DX window_DY)"
  shows "lk_iteration env par old_lvl new_lvl (window_I, window_DX, window_DY, G, Det) it v
           = Inr (if step_converged step (step_threshold par) then Converged else NextIteration,
                  add_step v step)"
  using assms by (simp add: lk_iteration_def Let_def)

lemma unat_patch_size: "unat hws \<le> 926 \<Longrightarrow> unat (patch_size hws) = 2 * unat hws + 1"
  by (simp add: patch_size_def unat_word_ariths)

lemma unat_error_threshold:
  assumes "unat hws \<le> 926"
  shows "unat (error_threshold hws) = 625 * (2 * unat hws + 1)\<^sup>2"
proof -
  let ?n = "2 * unat hws + 1"
  have n: "?n \<le> 1853" using assms by simp
  have sq: "?n * ?n \<le> 1853 * 1853" using n by (intro mult_le_mono)
  have p: "unat (ucast (patch_size hws) :: uint32_t) = ?n"
    using assms by (simp add: unat_patch_size unat_ucast_up)
  have "unat (error_threshold hws) = (625 * (?n * ?n mod 2 ^ 32)) mod 2 ^ 32"
    by (simp add: error_threshold_def unat_word_ariths p)
  also have "\<dots> = 625 * (?n * ?n)" using sq by simp
  finally show ?thesis by (simp add: power2_eq_square)
qed

lemma error_rejects_nat:
  "error_rejects error hws it max_it
     = (unat (error_threshold hws) < unat error \<and> unat max_it div 2 < unat it)"
  by (simp add: error_rejects_def word_less_nat_alt unat_div)

lemma refine_rejected:
  assumes "it < max_iterations par"
    and "lk_iteration env par old_lvl new_lvl lin it v = Inr (oc, w)"
    and "oc = OutsideROI \<or> oc = ErrorTooLarge"
  shows "refine env par old_lvl new_lvl lin it v = Inr (False, w, unat it + 1)"
  using assms by (subst refine.simps) auto

lemma refine_converged:
  assumes "it < max_iterations par"
    and "lk_iteration env par old_lvl new_lvl lin it v = Inr (Converged, w)"
  shows "refine env par old_lvl new_lvl lin it v = Inr (True, w, unat it + 1)"
  using assms by (subst refine.simps) auto

lemma step_converged_int:
  assumes "\<bar>sint (fst step)\<bar> + \<bar>sint (snd step)\<bar> < uint thr"
  shows "step_converged step thr"
proof -
  have t: "uint thr < 256" using uint_lt2p [of thr] by simp
  have a: "sint (fst step) \<noteq> - (2 ^ 31)" and b: "sint (snd step) \<noteq> - (2 ^ 31)"
    using assms t by auto
  have sa: "sint (c_abs (fst step)) = \<bar>sint (fst step)\<bar>" using a by (rule sint_c_abs)
  have sb: "sint (c_abs (snd step)) = \<bar>sint (snd step)\<bar>" using b by (rule sint_c_abs)
  have "c_abs (fst step) + c_abs (snd step)
          = word_of_int (sint (c_abs (fst step)) + sint (c_abs (snd step)))" by simp
  then have "sint (c_abs (fst step) + c_abs (snd step))
          = sint (word_of_int (\<bar>sint (fst step)\<bar> + \<bar>sint (snd step)\<bar>) :: int32_t)"
    unfolding sa sb by simp
  also have "\<dots> = \<bar>sint (fst step)\<bar> + \<bar>sint (snd step)\<bar>"
    using assms t by (intro sint_word_of_int_eq) simp_all
  finally have s: "sint (c_abs (fst step) + c_abs (snd step))
          = \<bar>sint (fst step)\<bar> + \<bar>sint (snd step)\<bar>" .
  have u: "sint (ucast thr :: int32_t) = uint thr"
    by (rule sint_ucast_up) simp
  show ?thesis unfolding step_converged_def word_sless_alt s u using assms .
qed

lemma finish_point_tracked:
  "finish_point st (Inr (True, v', n))
     = Inr (st\<lparr>vectors := (vectors st)(unat (new_p st) := v'),
               new_p := new_p st + 1, points_cnt := points_cnt st + 1\<rparr>)"
  by (simp add: finish_point_def)

lemma finish_point_untracked:
  "finish_point st (Inr (False, v', n)) = Inr (st\<lparr>vectors := (vectors st)(unat (new_p st) := v')\<rparr>)"
  by (simp add: finish_point_def)

section \<open>The iteration loop\<close>

lemma lk_iteration_cases:
  assumes "subpixel_factor par \<noteq> 0" and "Det \<noteq> 0"
  shows "\<exists>oc v'. lk_iteration env par old_lvl new_lvl (window_I, window_DX, window_DY, G, Det) it v = Inr (oc, v')
           \<and> pos v' = pos v"
  using assms by (simp add: lk_iteration_def Let_def add_step_def split: prod.splits)

lemma refine_total:
  assumes "subpixel_factor par \<noteq> 0" and "Det \<noteq> 0"
  shows "\<exists>tracked v' n. refine env par old_lvl new_lvl (window_I, window_DX, window_DY, G, Det) it v
            = Inr (tracked, v', n) \<and> n \<le> max (unat it) (unat (max_iterations par)) \<and> pos v' = pos v"
  using assms
proof (induction env par old_lvl new_lvl "(window_I, window_DX, window_DY, G, Det)" it v rule: refine.induct)
  case (1 env par old_lvl new_lvl it v)
  show ?case
  proof (cases "it < max_iterations par")
    case False
    then show ?thesis by (auto simp add: refine.simps)
  next
    case True
    then have le: "unat it + 1 \<le> unat (max_iterations par)" by (simp add: word_less_nat_alt)
    obtain oc v' where it: "lk_iteration env par old_lvl new_lvl (window_I, window_DX, window_DY, G, Det) it v = Inr (oc, v')"
      and p: "pos v' = pos v"
      using lk_iteration_cases [OF 1(2) 1(3)] by blast
    show ?thesis
    proof (cases oc)
      case NextIteration
      have suc: "unat (it + 1) = Suc (unat it)" using True by (simp add: unat_word_succ word_less_not_max)
      obtain t w n where r: "refine env par old_lvl new_lvl (window_I, window_DX, window_DY, G, Det) (it + 1) v' = Inr (t, w, n)"
        and n: "n \<le> max (unat (it + 1)) (unat (max_iterations par))" and pw: "pos w = pos v'"
        using 1(1) [OF True it refl NextIteration 1(2) 1(3)] by blast
      have "refine env par old_lvl new_lvl (window_I, window_DX, window_DY, G, Det) it v = Inr (t, w, n)"
        using True it NextIteration r by (subst refine.simps) simp
      moreover have "n \<le> max (unat it) (unat (max_iterations par))" using n suc le by simp
      ultimately show ?thesis using pw p by simp
    qed (use True it le p in \<open>auto simp add: refine.simps\<close>)
  qed
qed


lemma refine_break:
  assumes chain: "\<forall>j. unat it \<le> j \<and> j < k \<longrightarrow>
            lk_iteration env par old_lvl new_lvl lin (of_nat j) (vs j) = Inr (NextIteration, vs (Suc j))"
    and le: "unat it \<le> k" and lt: "k < unat (max_iterations par)"
    and last: "lk_iteration env par old_lvl new_lvl lin (of_nat k) (vs k) = Inr (oc, w)"
    and oc: "oc \<noteq> NextIteration"
  shows "refine env par old_lvl new_lvl lin it (vs (unat it)) = Inr (oc = Converged, w, k + 1)"
  using chain le
proof (induction "k - unat it" arbitrary: it)
  case 0
  then have k: "k = unat it" by simp
  then have itk: "of_nat k = it" by simp
  have "it < max_iterations par" using lt k by (simp add: word_less_nat_alt)
  then show ?case using last oc unfolding itk k
    by (subst refine.simps) (cases oc; simp)
next
  case (Suc d)
  then have lt': "unat it < k" by simp
  then have itmax: "it < max_iterations par" using lt by (simp add: word_less_nat_alt)
  then have suc: "unat (it + 1) = Suc (unat it)" by (simp add: unat_word_succ word_less_not_max)
  have step: "lk_iteration env par old_lvl new_lvl lin it (vs (unat it)) = Inr (NextIteration, vs (Suc (unat it)))"
    using Suc.prems(1) [rule_format, of "unat it"] lt' by simp
  have "refine env par old_lvl new_lvl lin (it + 1) (vs (unat (it + 1))) = Inr (oc = Converged, w, k + 1)"
  proof (rule Suc.hyps(1))
    show "d = k - unat (it + 1)" using Suc.hyps(2) suc by simp
    show "\<forall>j. unat (it + 1) \<le> j \<and> j < k \<longrightarrow>
            lk_iteration env par old_lvl new_lvl lin (of_nat j) (vs j) = Inr (NextIteration, vs (Suc j))"
      using Suc.prems(1) suc by simp
    show "unat (it + 1) \<le> k" using lt' suc by simp
  qed
  then show ?case using itmax step suc by (subst refine.simps) simp
qed

lemma refine_exhaust:
  assumes chain: "\<forall>j. unat it \<le> j \<and> j < unat (max_iterations par) \<longrightarrow>
            lk_iteration env par old_lvl new_lvl lin (of_nat j) (vs j) = Inr (NextIteration, vs (Suc j))"
    and le: "unat it \<le> unat (max_iterations par)"
  shows "refine env par old_lvl new_lvl lin it (vs (unat it))
           = Inr (True, vs (unat (max_iterations par)), unat (max_iterations par))"
  using chain le
proof (induction "unat (max_iterations par) - unat it" arbitrary: it)
  case 0
  then have e: "unat it = unat (max_iterations par)" by simp
  then have "\<not> it < max_iterations par" by (simp add: word_less_nat_alt)
  then show ?case using e by (subst refine.simps) simp
next
  case (Suc d)
  then have lt': "unat it < unat (max_iterations par)" by simp
  then have itmax: "it < max_iterations par" by (simp add: word_less_nat_alt)
  then have suc: "unat (it + 1) = Suc (unat it)" by (simp add: unat_word_succ word_less_not_max)
  have step: "lk_iteration env par old_lvl new_lvl lin it (vs (unat it)) = Inr (NextIteration, vs (Suc (unat it)))"
    using Suc.prems(1) [rule_format, of "unat it"] lt' by simp
  have "refine env par old_lvl new_lvl lin (it + 1) (vs (unat (it + 1)))
          = Inr (True, vs (unat (max_iterations par)), unat (max_iterations par))"
  proof (rule Suc.hyps(1))
    show "d = unat (max_iterations par) - unat (it + 1)" using Suc.hyps(2) suc by simp
    show "\<forall>j. unat (it + 1) \<le> j \<and> j < unat (max_iterations par) \<longrightarrow>
            lk_iteration env par old_lvl new_lvl lin (of_nat j) (vs j) = Inr (NextIteration, vs (Suc j))"
      using Suc.prems(1) suc by simp
    show "unat (it + 1) \<le> unat (max_iterations par)" using lt' suc by simp
  qed
  then show ?case using itmax step suc by (subst refine.simps) simp
qed

text \<open>
  Claim C7. The loop enters its body at most \<open>max_iterations\<close> times and always returns (a zero
  factor or determinant apart, which trap). An iteration that is not rejected and whose step
  has \<open>\<bar>step_x\<bar> + \<bar>step_y\<bar> < step_threshold\<close> ends the loop with \<^verbatim>\<open>tracked\<close> true and the
  step added. When every one of the \<open>max_iterations\<close> iterations runs to its end, the loop
  returns the last accumulated vector with \<^verbatim>\<open>tracked\<close> true, and a tracked point is stored and
  counted.
\<close>

theorem C7_refine_bounded:
  assumes "subpixel_factor par \<noteq> 0" and "Det \<noteq> 0"
  shows "(\<exists>tracked v' n.
            refine env par old_lvl new_lvl (window_I, window_DX, window_DY, G, Det) 0 v
              = Inr (tracked, v', n)
            \<and> n \<le> unat (max_iterations par))
       \<and> (\<forall>it u error window_diff step.
            it < max_iterations par
            \<and> \<not> outside_roi old_lvl (half_window_size par) (subpixel_factor par) (candidate u)
            \<and> window_error env par new_lvl window_I (candidate u) = (error, window_diff)
            \<and> \<not> error_rejects error (half_window_size par) it (max_iterations par)
            \<and> step = flow_step G Det (mismatch_vector env window_diff window_DX window_DY)
            \<and> \<bar>sint (fst step)\<bar> + \<bar>sint (snd step)\<bar> < uint (step_threshold par)
          \<longrightarrow> refine env par old_lvl new_lvl (window_I, window_DX, window_DY, G, Det) it u
                = Inr (True, add_step u step, unat it + 1))
       \<and> (\<forall>vs.
            vs 0 = v
            \<and> (\<forall>j. j < unat (max_iterations par) \<longrightarrow>
                   lk_iteration env par old_lvl new_lvl (window_I, window_DX, window_DY, G, Det)
                     (of_nat j) (vs j) = Inr (NextIteration, vs (Suc j)))
          \<longrightarrow> refine env par old_lvl new_lvl (window_I, window_DX, window_DY, G, Det) 0 v
                = Inr (True, vs (unat (max_iterations par)), unat (max_iterations par)))
       \<and> (\<forall>st v' n.
            finish_point st (Inr (True, v', n))
              = Inr (st\<lparr>vectors := (vectors st)(unat (new_p st) := v'),
                        new_p := new_p st + 1, points_cnt := points_cnt st + 1\<rparr>))"
proof (intro conjI allI impI)
  show "\<exists>tracked v' n.
            refine env par old_lvl new_lvl (window_I, window_DX, window_DY, G, Det) 0 v
              = Inr (tracked, v', n)
            \<and> n \<le> unat (max_iterations par)"
    using refine_total [OF assms, of env old_lvl new_lvl window_I window_DX window_DY G 0 v] by auto
next
  fix it u error window_diff step
  assume a: "it < max_iterations par
            \<and> \<not> outside_roi old_lvl (half_window_size par) (subpixel_factor par) (candidate u)
            \<and> window_error env par new_lvl window_I (candidate u) = (error, window_diff)
            \<and> \<not> error_rejects error (half_window_size par) it (max_iterations par)
            \<and> step = flow_step G Det (mismatch_vector env window_diff window_DX window_DY)
            \<and> \<bar>sint (fst step)\<bar> + \<bar>sint (snd step)\<bar> < uint (step_threshold par)"
  then have "\<bar>sint (fst step)\<bar> + \<bar>sint (snd step)\<bar> < uint (step_threshold par)" by blast
  then have c: "step_converged step (step_threshold par)" by (rule step_converged_int)
  have "lk_iteration env par old_lvl new_lvl (window_I, window_DX, window_DY, G, Det) it u
          = Inr (Converged, add_step u step)"
    using a c lk_iteration_step [OF assms(1) _ _ _ assms(2), of old_lvl u env new_lvl window_I
        error window_diff it step G window_DX window_DY]
    by simp
  then show "refine env par old_lvl new_lvl (window_I, window_DX, window_DY, G, Det) it u
                = Inr (True, add_step u step, unat it + 1)"
    using a by (intro refine_converged) simp_all
next
  fix vs
  assume a: "vs 0 = v
            \<and> (\<forall>j. j < unat (max_iterations par) \<longrightarrow>
                   lk_iteration env par old_lvl new_lvl (window_I, window_DX, window_DY, G, Det)
                     (of_nat j) (vs j) = Inr (NextIteration, vs (Suc j)))"
  have "refine env par old_lvl new_lvl (window_I, window_DX, window_DY, G, Det) 0 (vs (unat (0::uint8_t)))
          = Inr (True, vs (unat (max_iterations par)), unat (max_iterations par))"
    using a by (intro refine_exhaust) simp_all
  then show "refine env par old_lvl new_lvl (window_I, window_DX, window_DY, G, Det) 0 v
                = Inr (True, vs (unat (max_iterations par)), unat (max_iterations par))"
    using a by simp
qed (rule finish_point_tracked)

theorem C7_refine_bounded_witness:
  "refine demo_prims (demo_par\<lparr>step_threshold := 0, max_iterations := 3\<rparr>) (demo_level 1) (demo_level 1)
     (demo_win, demo_win, demo_win, (100, 0, 0, 100), 1000) 0 demo_vec = Inr (True, demo_vec, 3)
   \<and> refine demo_prims demo_par (demo_level 1) (demo_level 1)
     (demo_win, demo_win, demo_win, (100, 0, 0, 100), 1000) 0 demo_vec = Inr (True, demo_vec, 1)"
  using C7_refine_bounded [where par = "demo_par\<lparr>step_threshold := 0, max_iterations := 3\<rparr>"
      and Det = 1000 and env = demo_prims and old_lvl = "demo_level 1" and new_lvl = "demo_level 1"
      and window_I = demo_win and window_DX = demo_win and window_DY = demo_win
      and G = "(100, 0, 0, 100)" and v = demo_vec]
  by (simp add: model_defs demo_defs refine.simps)

section \<open>Rejection for a large residual\<close>

text \<open>
  Claim C5, as the code has it. For a half window of at most 926 (the 32-bit threshold
  \<open>625 * patch_size\<^sup>2\<close> does not overflow) and a candidate inside the region of interest, the
  iteration with the zero-based index \<open>it\<close> rejects the point for its residual exactly when the
  window error exceeds \<open>625 * patch_size\<^sup>2\<close> and \<open>it\<close> is strictly greater than
  \<open>max_iterations div 2\<close>; the loop then stops at once with \<^verbatim>\<open>tracked\<close> false and the vector
  unchanged by this iteration.
\<close>

theorem C5_error_rejection:
  assumes "subpixel_factor par \<noteq> 0"
    and "unat (half_window_size par) \<le> 926"
    and "\<not> outside_roi old_lvl (half_window_size par) (subpixel_factor par) (candidate v)"
    and "window_error env par new_lvl window_I (candidate v) = (error, window_diff)"
  shows "((\<exists>w. lk_iteration env par old_lvl new_lvl (window_I, window_DX, window_DY, G, Det) it v
              = Inr (ErrorTooLarge, w))
          = (625 * (2 * unat (half_window_size par) + 1)\<^sup>2 < unat error
             \<and> unat (max_iterations par) div 2 < unat it))
       \<and> (\<forall>w. it < max_iterations par
              \<and> lk_iteration env par old_lvl new_lvl (window_I, window_DX, window_DY, G, Det) it v
                  = Inr (ErrorTooLarge, w)
            \<longrightarrow> w = v \<and> refine env par old_lvl new_lvl (window_I, window_DX, window_DY, G, Det) it v
                  = Inr (False, v, unat it + 1))"
proof (intro conjI allI impI)
  let ?rej = "error_rejects error (half_window_size par) it (max_iterations par)"
  have iff: "?rej = (625 * (2 * unat (half_window_size par) + 1)\<^sup>2 < unat error
             \<and> unat (max_iterations par) div 2 < unat it)"
    using assms(2) by (simp add: error_rejects_nat unat_error_threshold)
  show "(\<exists>w. lk_iteration env par old_lvl new_lvl (window_I, window_DX, window_DY, G, Det) it v
              = Inr (ErrorTooLarge, w))
          = (625 * (2 * unat (half_window_size par) + 1)\<^sup>2 < unat error
             \<and> unat (max_iterations par) div 2 < unat it)"
  proof (cases ?rej)
    case True
    then show ?thesis using lk_iteration_error [OF assms(1) assms(3) assms(4) True] iff by simp
  next
    case False
    then have "\<And>w. lk_iteration env par old_lvl new_lvl (window_I, window_DX, window_DY, G, Det) it v
              \<noteq> Inr (ErrorTooLarge, w)"
      using assms(1,3,4) by (simp add: lk_iteration_def Let_def)
    then show ?thesis using False iff by simp
  qed
next
  fix w
  assume a: "it < max_iterations par
              \<and> lk_iteration env par old_lvl new_lvl (window_I, window_DX, window_DY, G, Det) it v
                  = Inr (ErrorTooLarge, w)"
  then show "w = v" using assms(1,3,4) by (simp add: lk_iteration_def Let_def split: if_splits)
  then show "refine env par old_lvl new_lvl (window_I, window_DX, window_DY, G, Det) it v
                  = Inr (False, v, unat it + 1)"
    using a by (intro refine_rejected [where oc = ErrorTooLarge]) simp_all
qed

theorem C5_error_rejection_witness:
  "(\<exists>w. lk_iteration demo_prims_noisy demo_par (demo_level 1) (demo_level 1)
          (demo_win, demo_win, demo_win, (100, 0, 0, 100), 1000) 6 demo_vec = Inr (ErrorTooLarge, w))
   \<and> refine demo_prims_noisy demo_par (demo_level 1) (demo_level 1)
          (demo_win, demo_win, demo_win, (100, 0, 0, 100), 1000) 6 demo_vec = Inr (False, demo_vec, 7)"
  using C5_error_rejection [where par = demo_par and old_lvl = "demo_level 1" and v = demo_vec
      and env = demo_prims_noisy and new_lvl = "demo_level 1" and window_I = demo_win
      and error = 1000000 and window_diff = demo_win and window_DX = demo_win
      and window_DY = demo_win and G = "(100, 0, 0, 100)" and Det = 1000 and it = 6]
  by (simp add: model_defs demo_defs)

text \<open>
  The claim as stated fails at the boundary: with \<open>max_iterations = 10\<close> and the index 5, five
  iterations (half of the budget) have elapsed and the error is above the threshold, yet the
  point is not rejected.
\<close>

theorem C5_half_elapsed_counterexample:
  "error_threshold (half_window_size demo_par)
     < fst (window_error demo_prims_noisy demo_par (demo_level 1) demo_win (candidate demo_vec))
   \<and> unat (max_iterations demo_par) \<le> 2 * unat (5 :: uint8_t)
   \<and> lk_iteration demo_prims_noisy demo_par (demo_level 1) (demo_level 1) demo_lin 5 demo_vec
       = Inr (Converged, demo_vec)"
  by (simp add: model_defs demo_defs)

section \<open>The flow update\<close>

text \<open>
  Claim C6. In an iteration that is not rejected, \<open>b_x\<close> and \<open>b_y\<close> are the two sums of
  products divided by 255, the step is \<open>(G3 * b_x - G1 * b_y) / Det\<close> and
  \<open>(G0 * b_y - G2 * b_x) / Det\<close>, and the step is added to the flow of the vector. The
  divisions truncate towards zero. Read in the integers, the quotient by 255 is exact, the
  step is exact when its 32-bit products and their difference do not overflow, and the
  sum is exact when it fits the type of the flow.
\<close>

theorem C6_flow_update:
  fixes v :: "('p::len, 'f::len) flow_t"
  assumes "subpixel_factor par \<noteq> 0"
    and "\<not> outside_roi old_lvl (half_window_size par) (subpixel_factor par) (candidate v)"
    and "window_error env par new_lvl window_I (candidate v) = (error, window_diff)"
    and "\<not> error_rejects error (half_window_size par) it (max_iterations par)"
    and "0 < sint Det"
    and "b_x = c_sdiv (image_multiply env window_diff window_DX) 255"
    and "b_y = c_sdiv (image_multiply env window_diff window_DY) 255"
    and "step_x = c_sdiv (G3 * b_x - G1 * b_y) Det"
    and "step_y = c_sdiv (G0 * b_y - G2 * b_x) Det"
  shows "(\<exists>oc. lk_iteration env par old_lvl new_lvl
                 (window_I, window_DX, window_DY, (G0, G1, G2, G3), Det) it v
               = Inr (oc, v\<lparr>flow_x := flow_x v + scast step_x, flow_y := flow_y v + scast step_y\<rparr>)
             \<and> (oc = Converged \<or> oc = NextIteration))
       \<and> sint b_x = sint (image_multiply env window_diff window_DX) sdiv 255
       \<and> sint b_y = sint (image_multiply env window_diff window_DY) sdiv 255
       \<and> (in_int32 (sint G3 * sint b_x) \<and> in_int32 (sint G1 * sint b_y)
            \<and> in_int32 (sint G3 * sint b_x - sint G1 * sint b_y)
          \<longrightarrow> sint step_x = (sint G3 * sint b_x - sint G1 * sint b_y) sdiv sint Det)
       \<and> (in_int32 (sint G0 * sint b_y) \<and> in_int32 (sint G2 * sint b_x)
            \<and> in_int32 (sint G0 * sint b_y - sint G2 * sint b_x)
          \<longrightarrow> sint step_y = (sint G0 * sint b_y - sint G2 * sint b_x) sdiv sint Det)
       \<and> (- (2 ^ (LENGTH('f) - 1)) \<le> sint (flow_x v) + sint step_x
            \<and> sint (flow_x v) + sint step_x < 2 ^ (LENGTH('f) - 1)
          \<longrightarrow> sint (flow_x v + scast step_x) = sint (flow_x v) + sint step_x)
       \<and> (- (2 ^ (LENGTH('f) - 1)) \<le> sint (flow_y v) + sint step_y
            \<and> sint (flow_y v) + sint step_y < 2 ^ (LENGTH('f) - 1)
          \<longrightarrow> sint (flow_y v + scast step_y) = sint (flow_y v) + sint step_y)"
proof (intro conjI impI)
  have det: "Det \<noteq> 0" using assms(5) by auto
  have step: "(step_x, step_y)
      = flow_step (G0, G1, G2, G3) Det (mismatch_vector env window_diff window_DX window_DY)"
    using assms(6-9) by (simp add: flow_step_def mismatch_vector_def)
  have "lk_iteration env par old_lvl new_lvl (window_I, window_DX, window_DY, (G0, G1, G2, G3), Det) it v
      = Inr (if step_converged (step_x, step_y) (step_threshold par) then Converged else NextIteration,
             add_step v (step_x, step_y))"
    by (rule lk_iteration_step [OF assms(1-4) det step])
  then show "\<exists>oc. lk_iteration env par old_lvl new_lvl
                 (window_I, window_DX, window_DY, (G0, G1, G2, G3), Det) it v
               = Inr (oc, v\<lparr>flow_x := flow_x v + scast step_x, flow_y := flow_y v + scast step_y\<rparr>)
             \<and> (oc = Converged \<or> oc = NextIteration)"
    by (simp add: add_step_def)
next
  show "sint b_x = sint (image_multiply env window_diff window_DX) sdiv 255"
    using sint_c_sdiv_pos [of 255 "image_multiply env window_diff window_DX"] assms(6) by simp
next
  show "sint b_y = sint (image_multiply env window_diff window_DY) sdiv 255"
    using sint_c_sdiv_pos [of 255 "image_multiply env window_diff window_DY"] assms(7) by simp
next
  assume "in_int32 (sint G3 * sint b_x) \<and> in_int32 (sint G1 * sint b_y)
            \<and> in_int32 (sint G3 * sint b_x - sint G1 * sint b_y)"
  then have "sint (G3 * b_x - G1 * b_y) = sint G3 * sint b_x - sint G1 * sint b_y"
    by (intro sint_sub_mult_exact) simp
  then show "sint step_x = (sint G3 * sint b_x - sint G1 * sint b_y) sdiv sint Det"
    using sint_c_sdiv_pos [OF assms(5), of "G3 * b_x - G1 * b_y"] assms(8) by simp
next
  assume "in_int32 (sint G0 * sint b_y) \<and> in_int32 (sint G2 * sint b_x)
            \<and> in_int32 (sint G0 * sint b_y - sint G2 * sint b_x)"
  then have "sint (G0 * b_y - G2 * b_x) = sint G0 * sint b_y - sint G2 * sint b_x"
    by (intro sint_sub_mult_exact) simp
  then show "sint step_y = (sint G0 * sint b_y - sint G2 * sint b_x) sdiv sint Det"
    using sint_c_sdiv_pos [OF assms(5), of "G0 * b_y - G2 * b_x"] assms(9) by simp
next
  assume "- (2 ^ (LENGTH('f) - 1)) \<le> sint (flow_x v) + sint step_x
            \<and> sint (flow_x v) + sint step_x < 2 ^ (LENGTH('f) - 1)"
  then show "sint (flow_x v + scast step_x) = sint (flow_x v) + sint step_x"
    by (intro sint_flow_add) simp_all
next
  assume "- (2 ^ (LENGTH('f) - 1)) \<le> sint (flow_y v) + sint step_y
            \<and> sint (flow_y v) + sint step_y < 2 ^ (LENGTH('f) - 1)"
  then show "sint (flow_y v + scast step_y) = sint (flow_y v) + sint step_y"
    by (intro sint_flow_add) simp_all
qed


theorem C6_flow_update_witness:
  "\<not> outside_roi (demo_level 1) (half_window_size demo_par) (subpixel_factor demo_par)
       (candidate demo_vec)
   \<and> lk_iteration demo_prims_moving demo_par (demo_level 1) (demo_level 1)
       (demo_win, demo_win, demo_win, (100, 0, 0, 100), 1000) 0 demo_vec
       = Inr (NextIteration, demo_vec\<lparr>flow_x := 360, flow_y := 360\<rparr>)
   \<and> sint (3600 :: int32_t) = 918000 sdiv 255
   \<and> sint (360 :: int32_t) = (100 * 3600 - 0 * 3600) sdiv 1000
   \<and> sint (flow_x demo_vec + scast (360 :: int32_t)) = 0 + 360"
proof -
  let ?diff = "\<lparr>image_w = 11, image_h = 11, image_buf = 150 :: nat\<rparr>"
  have h1: "subpixel_factor demo_par \<noteq> 0" by (simp add: demo_defs)
  have h2: "\<not> outside_roi (demo_level 1) (half_window_size demo_par) (subpixel_factor demo_par)
       (candidate demo_vec)"
    by (simp add: model_defs demo_defs)
  have h3: "window_error demo_prims_moving demo_par (demo_level 1) demo_win (candidate demo_vec)
       = (0, ?diff)"
    by (simp add: model_defs demo_defs)
  have h4: "\<not> error_rejects 0 (half_window_size demo_par) 0 (max_iterations demo_par)"
    by (simp add: model_defs demo_defs)
  have h5: "0 < sint (1000 :: int32_t)" by simp
  have h6: "(3600 :: int32_t) = c_sdiv (image_multiply demo_prims_moving ?diff demo_win) 255"
    by (simp add: model_defs demo_defs)
  have h8: "(360 :: int32_t) = c_sdiv (100 * 3600 - 0 * 3600) 1000"
    by (simp add: model_defs)
  note t = C6_flow_update [OF h1 h2 h3 h4 h5 h6 h6 h8 h8]
  have it: "lk_iteration demo_prims_moving demo_par (demo_level 1) (demo_level 1)
       (demo_win, demo_win, demo_win, (100, 0, 0, 100), 1000) 0 demo_vec
       = Inr (NextIteration, demo_vec\<lparr>flow_x := 360, flow_y := 360\<rparr>)"
    by (simp add: model_defs demo_defs)
  have b: "sint (3600 :: int32_t) = 918000 sdiv 255"
    using t [THEN conjunct2, THEN conjunct1] by (simp add: demo_defs)
  have s: "sint (360 :: int32_t) = (100 * 3600 - 0 * 3600) sdiv 1000"
    using t [THEN conjunct2, THEN conjunct2, THEN conjunct2, THEN conjunct1]
    by (simp add: in_int32_def)
  have f: "sint (flow_x demo_vec + scast (360 :: int32_t)) = 0 + 360"
    using t [THEN conjunct2, THEN conjunct2, THEN conjunct2, THEN conjunct2, THEN conjunct2,
             THEN conjunct1]
    by (simp add: demo_defs)
  show ?thesis using h2 it b s f by blast
qed

section \<open>The determinant test\<close>

lemma sint_determinant:
  assumes sf: "sf \<noteq> 0"
    and p: "in_int32 (sint G1 * sint G2)"
    and q: "in_int32 ((sint G0 * sint G3 - sint G1 * sint G2) sdiv uint sf)"
  shows "sint (determinant (G0, G1, G2, G3) sf) = (sint G0 * sint G3 - sint G1 * sint G2) sdiv uint sf"
proof -
  let ?k = "sint G0 * sint G3 - sint G1 * sint G2"
  let ?N = "(scast G0 :: int64_t) * scast G3 - scast (G1 * G2)"
  let ?D = "ucast sf :: int64_t"
  have g12: "sint (G1 * G2) = sint G1 * sint G2"
    by (rule sint_int32_exact [OF _ p]) simp
  have "?N = word_of_int (sint G0 * sint G3 - sint (G1 * G2))" by simp
  then have N: "?N = word_of_int ?k" unfolding g12 .
  have "\<bar>sint G0 * sint G3\<bar> \<le> 2 ^ 62" by (intro abs_prod_int32 abs_sint32)
  moreover have "\<bar>sint G1 * sint G2\<bar> \<le> 2 ^ 31"
    using p unfolding in_int32_def by (simp add: abs_le_iff)
  ultimately have "- (2 ^ 63) \<le> ?k \<and> ?k < 2 ^ 63" by (simp add: abs_le_iff)
  then have sN: "sint ?N = ?k" unfolding N by (intro sint_word_of_int_eq) simp_all
  have sD: "sint ?D = uint sf" by (rule sint_ucast_up) simp
  have "uint sf \<noteq> 0" using sf by (simp add: uint_0_iff)
  moreover have "0 \<le> uint sf" by simp
  ultimately have "0 < uint sf" by linarith
  then have pos: "0 < sint ?D" unfolding sD .
  have sq: "sint (c_sdiv ?N ?D) = ?k sdiv uint sf"
    using sint_c_sdiv_pos [OF pos, of ?N] unfolding sN sD .
  have "determinant (G0, G1, G2, G3) sf = scast (c_sdiv ?N ?D)"
    by (simp add: determinant_def down_ucast_scast)
  also have "\<dots> = word_of_int (sint (c_sdiv ?N ?D))" by (rule scast_eq)
  finally have "determinant (G0, G1, G2, G3) sf = word_of_int (?k sdiv uint sf)" unfolding sq .
  then show ?thesis by (rule sint_int32_exact [OF _ q])
qed


lemma track_vector_skip:
  assumes "subpixel_factor par \<noteq> 0"
    and "lin_Det (linearise env par old_lvl (pos (vectors st (unat (new_p st))))) <s 1"
  shows "track_vector env par old_lvl new_lvl st = Inr st"
  using assms by (simp add: track_vector_def Let_def)

lemma track_vector_refine:
  assumes "subpixel_factor par \<noteq> 0"
    and "\<not> lin_Det (linearise env par old_lvl (pos (vectors st (unat (new_p st))))) <s 1"
  shows "track_vector env par old_lvl new_lvl st
           = finish_point st (refine env par old_lvl new_lvl
               (linearise env par old_lvl (pos (vectors st (unat (new_p st))))) 0
               (vectors st (unat (new_p st))))"
  using assms by (simp add: track_vector_def Let_def)

lemma linearise_Det:
  assumes "linearise env par old_lvl c = (window_I, window_DX, window_DY, G, Det)"
  shows "Det = determinant G (subpixel_factor par)"
  using assms by (auto simp add: linearise_def Let_def split: prod.splits)

text \<open>
  The test at one point of one level. The scalar is \<^verbatim>\<open>Det\<close>, a 32-bit value; it equals
  \<open>(G0 * G3 - G1 * G2) / subpixel_factor\<close> (truncating division in the integers) whenever the
  32-bit product \<open>G1 * G2\<close> does not overflow and the quotient fits 32 bits. The body of the
  point loop leaves the state as it was (no index or count advances) exactly when \<^verbatim>\<open>Det\<close> is
  below 1; otherwise it goes on to the refinement.
\<close>

lemma determinant_test:
  assumes "subpixel_factor par \<noteq> 0"
    and "v = vectors st (unat (new_p st))"
    and "linearise env par old_lvl (pos v) = (window_I, window_DX, window_DY, (G0, G1, G2, G3), Det)"
  shows "(in_int32 (sint G1 * sint G2)
            \<and> in_int32 ((sint G0 * sint G3 - sint G1 * sint G2) sdiv uint (subpixel_factor par))
          \<longrightarrow> sint Det = (sint G0 * sint G3 - sint G1 * sint G2) sdiv uint (subpixel_factor par))
       \<and> (sint Det < 1 \<longrightarrow> track_vector env par old_lvl new_lvl st = Inr st)
       \<and> (1 \<le> sint Det \<longrightarrow>
            track_vector env par old_lvl new_lvl st
              = finish_point st (refine env par old_lvl new_lvl
                  (window_I, window_DX, window_DY, (G0, G1, G2, G3), Det) 0 v))"
proof (intro conjI impI)
  have d: "Det = determinant (G0, G1, G2, G3) (subpixel_factor par)"
    using assms(3) by (rule linearise_Det)
  assume "in_int32 (sint G1 * sint G2)
            \<and> in_int32 ((sint G0 * sint G3 - sint G1 * sint G2) sdiv uint (subpixel_factor par))"
  then show "sint Det = (sint G0 * sint G3 - sint G1 * sint G2) sdiv uint (subpixel_factor par)"
    unfolding d using assms(1) by (intro sint_determinant) simp_all
next
  assume "sint Det < 1"
  then show "track_vector env par old_lvl new_lvl st = Inr st"
    using assms by (intro track_vector_skip) (simp_all add: lin_Det_def word_sless_alt)
next
  assume "1 \<le> sint Det"
  then have "\<not> lin_Det (linearise env par old_lvl (pos (vectors st (unat (new_p st))))) <s 1"
    using assms by (simp add: lin_Det_def word_sless_alt)
  then show "track_vector env par old_lvl new_lvl st
              = finish_point st (refine env par old_lvl new_lvl
                  (window_I, window_DX, window_DY, (G0, G1, G2, G3), Det) 0 v)"
    using track_vector_refine [OF assms(1), of env old_lvl st new_lvl] assms(2,3) by simp
qed

lemma determinant_test_demo:
  "linearise demo_prims demo_par (demo_level 1) (pos demo_vec)
     = (demo_win, demo_win, demo_win, (100, 0, 0, 100), 1000)
   \<and> sint (1000 :: int32_t) = (100 * 100 - 0 * 0) sdiv 10
   \<and> track_vector demo_prims demo_par (demo_level 1) (demo_level 1) demo_state1
       = Inr (demo_state1\<lparr>new_p := 1, points_cnt := 1\<rparr>)"
proof -
  have h1: "subpixel_factor demo_par \<noteq> 0" by (simp add: demo_defs)
  have h2: "demo_vec = vectors demo_state1 (unat (new_p demo_state1))"
    by (simp add: demo_state1_def)
  have h3: "linearise demo_prims demo_par (demo_level 1) (pos demo_vec)
     = (demo_win, demo_win, demo_win, (100, 0, 0, 100), 1000)"
    by (simp add: model_defs demo_defs)
  note t = determinant_test [OF h1 h2 h3]
  have a: "sint (1000 :: int32_t) = (100 * 100 - 0 * 0) sdiv 10"
    using t [THEN conjunct1] by (simp add: in_int32_def demo_defs signed_divide_int_def)
  have r: "refine demo_prims demo_par (demo_level 1) (demo_level 1)
             (demo_win, demo_win, demo_win, (100, 0, 0, 100), 1000) 0 demo_vec
           = Inr (True, demo_vec, 1)"
    by (simp add: model_defs demo_defs refine.simps)
  have "track_vector demo_prims demo_par (demo_level 1) (demo_level 1) demo_state1
       = finish_point demo_state1 (Inr (True, demo_vec, 1))"
    using t [THEN conjunct2, THEN conjunct2, of "demo_level 1"] unfolding r by simp
  then have b: "track_vector demo_prims demo_par (demo_level 1) (demo_level 1) demo_state1
       = Inr (demo_state1\<lparr>new_p := 1, points_cnt := 1\<rparr>)"
    by (simp add: finish_point_def demo_state1_def fun_upd_def)
  show ?thesis using h3 a b by blast
qed

text \<open>
  The store into the \<^verbatim>\<open>int32_t Det\<close> drops the upper half of the 64-bit quotient that line 163
  computes: for \<open>G = (65536, 0, 0, 65536)\<close> and the factor 1 the scaled determinant is
  \<open>2 ^ 32\<close>, the stored \<^verbatim>\<open>Det\<close> is 0, and the point is skipped.
\<close>

lemma determinant_narrowing:
  "(sint (65536 :: int32_t) * sint (65536 :: int32_t) - sint (0 :: int32_t) * sint (0 :: int32_t))
       sdiv uint (1 :: uint32_t) = 4294967296
   \<and> sint (determinant (65536, 0, 0, 65536) 1) = 0
   \<and> track_vector (demo_prims\<lparr>image_calculate_g := (\<lambda>dx dy. (65536, 0, 0, 65536))\<rparr>)
         (demo_par\<lparr>subpixel_factor := 1\<rparr>) (demo_level 1) (demo_level 1) demo_state1
       = Inr demo_state1"
  by (simp add: model_defs demo_defs)

text \<open>
  Claim C3: a point whose scaled determinant is below 1 is rejected, that is skipped without
  advancing and excluded from the output. The code evaluated on the scene, at level 0 after
  both points were tracked at level 1: slot 0, doubled to 400, has a zero \<^verbatim>\<open>G\<close>, its \<^verbatim>\<open>Det\<close> is 0
  and the body of the point loop skips it, leaving \<^verbatim>\<open>new_p\<close> at 0; the pass of level 0 then ends
  with one counted point, and that point is slot 0 again, doubled a second time to 800 (where
  \<^verbatim>\<open>Det\<close> is 1000). The point the determinant test rejected is in the output; the point of
  slot 1, whose seed 300 has the determinant 1000, was never tested and is not.
\<close>

theorem C3_rejected_point_in_output:
  "lin_Det (linearise demo_prims demo_par (demo_level 0) \<lparr>point_x = 400, point_y = 400\<rparr>) = 0
   \<and> lin_Det (linearise demo_prims demo_par (demo_level 0) \<lparr>point_x = 800, point_y = 800\<rparr>) = 1000
   \<and> lin_Det (linearise demo_prims demo_par (demo_level 0) \<lparr>point_x = 300, point_y = 300\<rparr>) = 1000
   \<and> track_vector demo_prims demo_par (demo_level 0) (demo_level 0)
         (demo_fine_state\<lparr>points_cnt := 0, new_p := 0,
            vectors := (vectors demo_fine_state)
              (0 := \<lparr>pos = \<lparr>point_x = 400, point_y = 400\<rparr>, flow_x = 0, flow_y = 0\<rparr>)\<rparr>)
       = Inr (demo_fine_state\<lparr>points_cnt := 0, new_p := 0,
            vectors := (vectors demo_fine_state)
              (0 := \<lparr>pos = \<lparr>point_x = 400, point_y = 400\<rparr>, flow_x = 0, flow_y = 0\<rparr>)\<rparr>)
   \<and> level_pass demo_prims demo_par demo_level demo_level demo_points (pyramid_exp 1) 0 demo_fine_state
       = Inr (demo_fine_state\<lparr>points_cnt := 1, new_p := 1,
            vectors := (vectors demo_fine_state)
              (0 := \<lparr>pos = \<lparr>point_x = 800, point_y = 800\<rparr>, flow_x = 0, flow_y = 0\<rparr>)\<rparr>)"
  by (simp add: model_defs demo_defs points_loop.simps refine.simps)

section \<open>The coarsest level\<close>

lemma track_point_coarse_reject:
  assumes "sint LVL = uint (pyramid_level par)" and "0 \<le> sint LVL"
    and "input_outside_roi (pyramid_old (nat (sint LVL))) (half_window_size par) (points (unat i))"
  shows "track_point env par pyramid_old pyramid_new points e LVL i st = Inr st"
  using assms by (simp add: track_point_def)

lemma track_point_coarse_init:
  assumes "sint LVL = uint (pyramid_level par)" and "0 \<le> sint LVL"
    and "\<not> input_outside_roi (pyramid_old (nat (sint LVL))) (half_window_size par) (points (unat i))"
    and "e \<noteq> 0"
  shows "track_point env par pyramid_old pyramid_new points e LVL i st
           = track_vector env par (pyramid_old (nat (sint LVL))) (pyramid_new (nat (sint LVL)))
               (st\<lparr>vectors := (vectors st)
                  (unat (new_p st) := init_vector e (subpixel_factor par) (points (unat i)))\<rparr>)"
  using assms by (simp add: track_point_def)

lemma track_point_fine:
  assumes "sint LVL \<noteq> uint (pyramid_level par)" and "0 \<le> sint LVL"
  shows "track_point env par pyramid_old pyramid_new points e LVL i st
           = track_vector env par (pyramid_old (nat (sint LVL))) (pyramid_new (nat (sint LVL)))
               (st\<lparr>vectors := (vectors st)
                  (unat (new_p st) := double_vector (vectors st (unat (new_p st))))\<rparr>)"
  using assms by (simp add: track_point_def)

lemma unat_scaled_coordinate:
  fixes c :: "'p::len word"
  assumes len: "LENGTH('p) \<le> 32"
    and prod: "unat c * unat sf < 2 ^ 32"
    and fits: "unat c * unat sf div unat e < 2 ^ LENGTH('p)"
  shows "unat (ucast ((ucast c * sf) div ucast (e :: uint8_t) :: uint32_t) :: 'p word)
           = unat c * unat sf div unat e"
proof -
  have c32: "unat (ucast c :: uint32_t) = unat c" using len by (intro unat_ucast_up) simp
  have e32: "unat (ucast e :: uint32_t) = unat e" by (intro unat_ucast_up) simp
  have "unat (ucast c * sf :: uint32_t) = unat c * unat sf mod 2 ^ 32"
    by (simp add: unat_word_ariths c32)
  then have m: "unat (ucast c * sf :: uint32_t) = unat c * unat sf" using prod by simp
  have q: "unat ((ucast c * sf) div ucast e :: uint32_t) = unat c * unat sf div unat e"
    by (simp add: unat_div m e32)
  show ?thesis using fits by (simp add: unat_ucast_mod q)
qed

text \<open>
  Claim C8, as the code has it. At the coarsest level, for a pyramid level of at most 7 and
  inside the numeric range (the product of a coordinate and the factor fits 32 bits, the
  quotient fits the coordinate type), a point that passes the region-of-interest test has
  its subpixel position set to \<open>x * subpixel_factor div 2 ^ pyramid_level\<close>, likewise for \<open>y\<close>,
  and its flow set to zero, before it is linearised and refined.
\<close>

theorem C8_coarsest_initialisation:
  fixes points :: "nat \<Rightarrow> ('p::len) point_t" and st :: "('p, 'f::len) lk_state"
  assumes "LENGTH('p) \<le> 32"
    and "unat (pyramid_level par) \<le> 7"
    and "sint LVL = uint (pyramid_level par)"
    and "\<not> input_outside_roi (pyramid_old (nat (sint LVL))) (half_window_size par) (points (unat i))"
    and "pt = points (unat i)"
    and "unat (point_x pt) * unat (subpixel_factor par) < 2 ^ 32"
    and "unat (point_y pt) * unat (subpixel_factor par) < 2 ^ 32"
    and "unat (point_x pt) * unat (subpixel_factor par) div 2 ^ unat (pyramid_level par) < 2 ^ LENGTH('p)"
    and "unat (point_y pt) * unat (subpixel_factor par) div 2 ^ unat (pyramid_level par) < 2 ^ LENGTH('p)"
    and "v0 = init_vector (pyramid_exp (pyramid_level par)) (subpixel_factor par) pt"
  shows "track_point env par pyramid_old pyramid_new points (pyramid_exp (pyramid_level par)) LVL i st
           = track_vector env par (pyramid_old (nat (sint LVL))) (pyramid_new (nat (sint LVL)))
               (st\<lparr>vectors := (vectors st)(unat (new_p st) := v0)\<rparr>)
       \<and> unat (point_x (pos v0))
           = unat (point_x pt) * unat (subpixel_factor par) div 2 ^ unat (pyramid_level par)
       \<and> unat (point_y (pos v0))
           = unat (point_y pt) * unat (subpixel_factor par) div 2 ^ unat (pyramid_level par)
       \<and> flow_x v0 = 0 \<and> flow_y v0 = 0"
proof (intro conjI)
  have e: "unat (pyramid_exp (pyramid_level par)) = 2 ^ unat (pyramid_level par)"
    using assms(2) by (rule pyramid_exp_small)
  have nz: "pyramid_exp (pyramid_level par) \<noteq> 0" using assms(2) by (simp add: pyramid_exp_zero_iff)
  have lvl: "0 \<le> sint LVL" using assms(3) by simp
  show "track_point env par pyramid_old pyramid_new points (pyramid_exp (pyramid_level par)) LVL i st
           = track_vector env par (pyramid_old (nat (sint LVL))) (pyramid_new (nat (sint LVL)))
               (st\<lparr>vectors := (vectors st)(unat (new_p st) := v0)\<rparr>)"
    using track_point_coarse_init [where pyramid_old = pyramid_old and points = points and i = i
        and LVL = LVL and par = par and e = "pyramid_exp (pyramid_level par)" and env = env
        and pyramid_new = pyramid_new and st = st, OF assms(3) lvl assms(4) nz] assms(5,10)
    by simp
  show "unat (point_x (pos v0))
           = unat (point_x pt) * unat (subpixel_factor par) div 2 ^ unat (pyramid_level par)"
    using unat_scaled_coordinate [OF assms(1), of "point_x pt" "subpixel_factor par"
        "pyramid_exp (pyramid_level par)"] assms(6,8)
    unfolding e assms(10) by (simp add: init_vector_def)
  show "unat (point_y (pos v0))
           = unat (point_y pt) * unat (subpixel_factor par) div 2 ^ unat (pyramid_level par)"
    using unat_scaled_coordinate [OF assms(1), of "point_y pt" "subpixel_factor par"
        "pyramid_exp (pyramid_level par)"] assms(7,9)
    unfolding e assms(10) by (simp add: init_vector_def)
  show "flow_x v0 = 0" unfolding assms(10) by (simp add: init_vector_def)
  show "flow_y v0 = 0" unfolding assms(10) by (simp add: init_vector_def)
qed


theorem C8_coarsest_initialisation_witness:
  "\<not> input_outside_roi (demo_level 1) (half_window_size demo_par) (demo_points 0)
   \<and> track_point demo_prims demo_par demo_level demo_level demo_points (pyramid_exp 1) 1 0 demo_state
       = track_vector demo_prims demo_par (demo_level 1) (demo_level 1)
           (demo_state\<lparr>vectors := (vectors demo_state)
              (0 := \<lparr>pos = \<lparr>point_x = 200, point_y = 200\<rparr>, flow_x = 0, flow_y = 0\<rparr>)\<rparr>)
   \<and> unat (200 :: 16 word) = 40 * 10 div 2 ^ 1"
proof -
  have h2: "unat (pyramid_level demo_par) \<le> 7" by (simp add: demo_defs)
  have h3: "sint (1 :: int8_t) = uint (pyramid_level demo_par)" by (simp add: demo_defs)
  have h4: "\<not> input_outside_roi (demo_level (nat (sint (1 :: int8_t)))) (half_window_size demo_par)
              (demo_points (unat (0 :: uint16_t)))"
    by (simp add: model_defs demo_defs)
  have h6: "unat (point_x (demo_points 0)) * unat (subpixel_factor demo_par) < 2 ^ 32"
    and h7: "unat (point_y (demo_points 0)) * unat (subpixel_factor demo_par) < 2 ^ 32"
    and h8: "unat (point_x (demo_points 0)) * unat (subpixel_factor demo_par)
               div 2 ^ unat (pyramid_level demo_par) < 2 ^ LENGTH(16)"
    and h9: "unat (point_y (demo_points 0)) * unat (subpixel_factor demo_par)
               div 2 ^ unat (pyramid_level demo_par) < 2 ^ LENGTH(16)"
    by (simp_all add: demo_defs)
  have v: "(\<lparr>pos = \<lparr>point_x = 200, point_y = 200\<rparr>, flow_x = 0, flow_y = 0\<rparr> :: (16, 16) flow_t)
             = init_vector (pyramid_exp (pyramid_level demo_par)) (subpixel_factor demo_par)
                 (demo_points 0)"
    by (simp add: model_defs demo_defs)
  note t = C8_coarsest_initialisation [where 'p = 16 and 'f = 16 and par = demo_par and LVL = 1
      and pyramid_old = demo_level and points = demo_points and i = 0 and pt = "demo_points 0"
      and env = demo_prims and pyramid_new = demo_level and st = demo_state, OF _ h2 h3 h4 _ h6 h7 h8 h9 v]
  have a: "track_point demo_prims demo_par demo_level demo_level demo_points (pyramid_exp 1) 1 0 demo_state
       = track_vector demo_prims demo_par (demo_level 1) (demo_level 1)
           (demo_state\<lparr>vectors := (vectors demo_state)
              (0 := \<lparr>pos = \<lparr>point_x = 200, point_y = 200\<rparr>, flow_x = 0, flow_y = 0\<rparr>)\<rparr>)"
    using t [THEN conjunct1] by (simp add: demo_par_def demo_state_def)
  have b: "unat (200 :: 16 word) = 40 * 10 div 2 ^ 1"
    using t [THEN conjunct2, THEN conjunct1] by (simp add: demo_par_def demo_points_def)
  show ?thesis using h4 a b by simp
qed

text \<open>
  The claim as stated fails outside these bounds: at the pyramid level 8 the point that
  passed the test is not initialised, the division traps; a product of \<open>2 ^ 32\<close> wraps to 0;
  and in a 16-bit coordinate, 100 times 1000 is stored as 34464.
\<close>

theorem C8_overflow_counterexample:
  "\<not> input_outside_roi demo_img 5 (demo_points 0)
   \<and> track_point demo_prims (demo_par\<lparr>pyramid_level := 8\<rparr>) (\<lambda>k. demo_img) (\<lambda>k. demo_img)
         demo_points (pyramid_exp 8) 8 0 demo_state = Inl DivisionByZero
   \<and> point_x (pos (init_vector (pyramid_exp 0) 2147483648 \<lparr>point_x = 2, point_y = 2\<rparr>
                    :: (32, 16) flow_t)) = 0
   \<and> (2 :: nat) * 2147483648 div 2 ^ 0 = 4294967296
   \<and> point_x (pos (init_vector (pyramid_exp 0) 1000 \<lparr>point_x = 100, point_y = 100\<rparr>
                    :: (16, 16) flow_t)) = 34464
   \<and> (100 :: nat) * 1000 div 2 ^ 0 = 100000"
  by (simp add: model_defs demo_defs)

section \<open>Rejection of input points near the border\<close>

lemma sub_less_int:
  fixes b :: "'p::len word"
  assumes "LENGTH('p) < 32"
  shows "sub_less a b c = (uint a - uint b < uint c)"
  using assms by (simp add: sub_less_def)

lemma input_outside_roi_int:
  fixes pt :: "('p::len) point_t"
  assumes "LENGTH('p) < 32"
  shows "input_outside_roi img hws pt
           = (uint (point_x pt) < uint hws \<or> uint (image_w img) - uint (point_x pt) < uint hws
              \<or> uint (point_y pt) < uint hws \<or> uint (image_h img) - uint (point_y pt) < uint hws)"
  using assms by (simp add: input_outside_roi_def sub_less_int unat_less_uint)

lemma track_point_points_cong:
  assumes same: "\<And>j. j \<noteq> k \<Longrightarrow> points' j = points j"
    and out: "input_outside_roi (pyramid_old (unat (pyramid_level par))) (half_window_size par) (points k)"
    and out': "input_outside_roi (pyramid_old (unat (pyramid_level par))) (half_window_size par) (points' k)"
  shows "track_point env par pyramid_old pyramid_new points' e LVL i st
           = track_point env par pyramid_old pyramid_new points e LVL i st"
proof (cases "0 \<le> sint LVL \<and> sint LVL = uint (pyramid_level par)")
  case False
  then show ?thesis by (auto simp add: track_point_def)
next
  case True
  then have n: "nat (sint LVL) = unat (pyramid_level par)" by simp
  show ?thesis
  proof (cases "unat i = k")
    case True
    then show ?thesis using \<open>0 \<le> sint LVL \<and> sint LVL = uint (pyramid_level par)\<close> out out' n
      by (simp add: track_point_def)
  next
    case False
    then show ?thesis using same [of "unat i"] by (simp add: track_point_def Let_def)
  qed
qed

lemma points_loop_points_cong:
  assumes "\<And>LVL i (st :: ('p::len, 'f::len) lk_state).
             track_point env par pyramid_old pyramid_new points' e LVL i st
             = track_point env par pyramid_old pyramid_new points e LVL i st"
  shows "points_loop env par pyramid_old pyramid_new points' e LVL points_orig i
             (st :: ('p, 'f) lk_state)
           = points_loop env par pyramid_old pyramid_new points e LVL points_orig i st"
  using assms
proof (induction env par pyramid_old pyramid_new points e LVL points_orig i st rule: points_loop.induct)
  case (1 env par pyramid_old pyramid_new points e LVL points_orig i st)
  show ?case
  proof (cases "i < max_points par")
    case False
    then show ?thesis by (simp add: points_loop.simps [of _ _ _ _ _ _ _ _ i])
  next
    case a: True
    show ?thesis
    proof (cases "i < points_orig")
      case False
      then show ?thesis by (simp add: points_loop.simps [of _ _ _ _ _ _ _ _ i])
    next
      case b: True
      have c: "i < max_points par \<and> i < points_orig" using a b by simp
      have tp: "track_point env par pyramid_old pyramid_new points' e LVL i st
                 = track_point env par pyramid_old pyramid_new points e LVL i st"
        by (rule "1.prems")
      have unfold: "\<And>pts. points_loop env par pyramid_old pyramid_new pts e LVL points_orig i st
          = (case track_point env par pyramid_old pyramid_new pts e LVL i st of
               Inl err \<Rightarrow> Inl err
             | Inr st' \<Rightarrow> points_loop env par pyramid_old pyramid_new pts e LVL points_orig (i + 1) st')"
        using a b by (subst points_loop.simps) simp
      show ?thesis
      proof (cases "track_point env par pyramid_old pyramid_new points e LVL i st")
        case (Inl err)
        then show ?thesis unfolding unfold tp by simp
      next
        case (Inr st')
        then show ?thesis unfolding unfold tp using "1.IH" [OF c Inr "1.prems"] by simp
      qed
    qed
  qed
qed

lemma levels_loop_points_cong:
  assumes "\<And>LVL i (st :: ('p::len, 'f::len) lk_state).
             track_point env par pyramid_old pyramid_new points' e LVL i st
             = track_point env par pyramid_old pyramid_new points e LVL i st"
  shows "levels_loop env par pyramid_old pyramid_new points' e LVL (st :: ('p, 'f) lk_state)
           = levels_loop env par pyramid_old pyramid_new points e LVL st"
  using assms
proof (induction env par pyramid_old pyramid_new points e LVL st rule: levels_loop.induct)
  case (1 env par pyramid_old pyramid_new points e LVL st)
  have lp: "\<And>st :: ('p, 'f) lk_state. level_pass env par pyramid_old pyramid_new points' e LVL st
            = level_pass env par pyramid_old pyramid_new points e LVL st"
    unfolding level_pass_def Let_def by (rule points_loop_points_cong) (rule "1.prems")
  have unfold: "\<And>pts. LVL \<noteq> - 1 \<Longrightarrow>
      levels_loop env par pyramid_old pyramid_new pts e LVL st
        = (case level_pass env par pyramid_old pyramid_new pts e LVL st of
             Inl err \<Rightarrow> Inl err
           | Inr st' \<Rightarrow> levels_loop env par pyramid_old pyramid_new pts e (LVL - 1) st')"
    by (subst levels_loop.simps) simp
  show ?case
  proof (cases "LVL = - 1")
    case True
    then show ?thesis by (simp add: levels_loop.simps [of _ _ _ _ _ _ "- 1"])
  next
    case False
    show ?thesis
    proof (cases "level_pass env par pyramid_old pyramid_new points e LVL st")
      case (Inl err)
      then show ?thesis unfolding unfold [OF False] lp by simp
    next
      case (Inr st')
      then show ?thesis unfolding unfold [OF False] lp using "1.IH" [OF False Inr "1.prems"] by simp
    qed
  qed
qed


lemma opticFlowLK_points_cong:
  fixes vectors0 :: "nat \<Rightarrow> ('p::len, 'f::len) flow_t"
  assumes out: "input_outside_roi (pyramid_build env old_img (pyramid_level par) (unat (pyramid_level par)))
                  (half_window_size par) (points k)"
    and out': "input_outside_roi (pyramid_build env old_img (pyramid_level par) (unat (pyramid_level par)))
                  (half_window_size par) q"
  shows "opticFlowLK env par new_img old_img (points(k := q)) cnt vectors0
           = opticFlowLK env par new_img old_img points cnt vectors0"
proof -
  let ?old = "pyramid_build env old_img (pyramid_level par)"
  let ?new = "pyramid_build env new_img (pyramid_level par)"
  have tp: "\<And>LVL i (st :: ('p, 'f) lk_state).
      track_point env par ?old ?new (points(k := q)) (pyramid_exp (pyramid_level par)) LVL i st
        = track_point env par ?old ?new points (pyramid_exp (pyramid_level par)) LVL i st"
    by (rule track_point_points_cong [where k = k]) (use out out' in simp_all)
  have "levels_loop env par ?old ?new (points(k := q)) (pyramid_exp (pyramid_level par))
          (pyramid_level par) \<lparr>vectors = vectors0, points_cnt = cnt, new_p = 0\<rparr>
        = levels_loop env par ?old ?new points (pyramid_exp (pyramid_level par))
          (pyramid_level par) \<lparr>vectors = vectors0, points_cnt = cnt, new_p = 0\<rparr>"
    by (rule levels_loop_points_cong) (rule tp)
  then show ?thesis by (simp add: opticFlowLK_def Let_def)
qed

text \<open>
  Claim C9, for a coordinate type narrower than \<^verbatim>\<open>int\<close> (the comparison of lines 131 and 132
  is then a signed one). An input point closer than \<open>half_window_size\<close> to a border of the
  coarsest level image, or of any image at least as large (the frame itself), fails the
  test; at the coarsest level the body of the point loop leaves the state as it was, so no
  slot and no count is given to the point; and the result of the call does not depend on
  the coordinates of such a point: any other rejected point in its place gives the same
  vectors and the same count.
\<close>

theorem C9_border_rejection:
  fixes pt :: "('p::len) point_t" and lvl_img :: "'b image_t"
  assumes "LENGTH('p) < 32"
    and "uint (image_w lvl_img) \<le> W" and "uint (image_h lvl_img) \<le> H"
    and "uint (point_x pt) < uint hws \<or> W - uint (point_x pt) < uint hws
         \<or> uint (point_y pt) < uint hws \<or> H - uint (point_y pt) < uint hws"
  shows "input_outside_roi lvl_img hws pt
       \<and> (\<forall>(env :: ('b, 'p) lk_prims) par pyramid_old pyramid_new points e LVL i
              (st :: ('p, 'f::len) lk_state).
            sint LVL = uint (pyramid_level par) \<and> pyramid_old (nat (sint LVL)) = lvl_img
            \<and> half_window_size par = hws \<and> points (unat i) = pt
          \<longrightarrow> track_point env par pyramid_old pyramid_new points e LVL i st = Inr st)
       \<and> (\<forall>(env :: ('b, 'p) lk_prims) par new_img old_img points cnt
              (vectors0 :: nat \<Rightarrow> ('p, 'f) flow_t) k q.
            pyramid_build env old_img (pyramid_level par) (unat (pyramid_level par)) = lvl_img
            \<and> half_window_size par = hws \<and> points k = pt \<and> input_outside_roi lvl_img hws q
          \<longrightarrow> opticFlowLK env par new_img old_img (points(k := q)) cnt vectors0
                = opticFlowLK env par new_img old_img points cnt vectors0)"
proof -
  have out: "input_outside_roi lvl_img hws pt"
    using assms by (simp add: input_outside_roi_int) linarith
  have step: "\<And>(env :: ('b, 'p) lk_prims) par pyramid_old pyramid_new points e LVL i
              (st :: ('p, 'f) lk_state).
            sint LVL = uint (pyramid_level par) \<and> pyramid_old (nat (sint LVL)) = lvl_img
            \<and> half_window_size par = hws \<and> points (unat i) = pt
          \<Longrightarrow> track_point env par pyramid_old pyramid_new points e LVL i st = Inr st"
  proof -
    fix env :: "('b, 'p) lk_prims" and par :: lk_params
      and pyramid_old pyramid_new :: "nat \<Rightarrow> 'b image_t"
      and points :: "nat \<Rightarrow> 'p point_t" and e :: uint8_t and LVL :: int8_t and i :: uint16_t
      and st :: "('p, 'f) lk_state"
    assume a: "sint LVL = uint (pyramid_level par) \<and> pyramid_old (nat (sint LVL)) = lvl_img
            \<and> half_window_size par = hws \<and> points (unat i) = pt"
    then have a1: "sint LVL = uint (pyramid_level par)"
      and a2: "pyramid_old (nat (sint LVL)) = lvl_img"
      and a3: "half_window_size par = hws" and a4: "points (unat i) = pt"
      by blast+
    have nn: "0 \<le> sint LVL" using a1 by simp
    have o: "input_outside_roi (pyramid_old (nat (sint LVL))) (half_window_size par) (points (unat i))"
      unfolding a2 a3 a4 by (rule out)
    show "track_point env par pyramid_old pyramid_new points e LVL i st = Inr st"
      using a1 nn o by (rule track_point_coarse_reject)
  qed
  have call: "\<And>(env :: ('b, 'p) lk_prims) par new_img old_img points cnt
              (vectors0 :: nat \<Rightarrow> ('p, 'f) flow_t) k q.
            pyramid_build env old_img (pyramid_level par) (unat (pyramid_level par)) = lvl_img
            \<and> half_window_size par = hws \<and> points k = pt \<and> input_outside_roi lvl_img hws q
          \<Longrightarrow> opticFlowLK env par new_img old_img (points(k := q)) cnt vectors0
                = opticFlowLK env par new_img old_img points cnt vectors0"
  proof -
    fix env :: "('b, 'p) lk_prims" and par :: lk_params and new_img old_img :: "'b image_t"
      and points :: "nat \<Rightarrow> 'p point_t" and cnt :: uint16_t
      and vectors0 :: "nat \<Rightarrow> ('p, 'f) flow_t" and k :: nat and q :: "'p point_t"
    assume a: "pyramid_build env old_img (pyramid_level par) (unat (pyramid_level par)) = lvl_img
            \<and> half_window_size par = hws \<and> points k = pt \<and> input_outside_roi lvl_img hws q"
    then have b1: "pyramid_build env old_img (pyramid_level par) (unat (pyramid_level par)) = lvl_img"
      and b2: "half_window_size par = hws" and b3: "points k = pt"
      and b4: "input_outside_roi lvl_img hws q"
      by blast+
    have o1: "input_outside_roi (pyramid_build env old_img (pyramid_level par) (unat (pyramid_level par)))
                  (half_window_size par) (points k)"
      unfolding b1 b2 b3 by (rule out)
    have o2: "input_outside_roi (pyramid_build env old_img (pyramid_level par) (unat (pyramid_level par)))
                  (half_window_size par) q"
      unfolding b1 b2 by (rule b4)
    show "opticFlowLK env par new_img old_img (points(k := q)) cnt vectors0
                = opticFlowLK env par new_img old_img points cnt vectors0"
      using o1 o2 by (rule opticFlowLK_points_cong)
  qed
  show ?thesis using out step call by blast
qed

theorem C9_border_rejection_witness:
  "input_outside_roi (demo_level 1) 5 demo_border_point
   \<and> track_point demo_prims demo_par demo_level demo_level (demo_points(0 := demo_border_point))
         (pyramid_exp 1) 1 0 demo_state = Inr demo_state
   \<and> opticFlowLK demo_prims demo_par demo_img demo_img
         ((demo_points(0 := demo_border_point))(0 := \<lparr>point_x = 2, point_y = 2\<rparr>)) 2 demo_vectors
       = opticFlowLK demo_prims demo_par demo_img demo_img (demo_points(0 := demo_border_point)) 2
           demo_vectors"
proof -
  have h1: "LENGTH(16) < (32 :: nat)" by simp
  have h2: "uint (image_w (demo_level 1)) \<le> 100" and h3: "uint (image_h (demo_level 1)) \<le> 100"
    by (simp_all add: demo_defs)
  have h4: "uint (point_x demo_border_point) < uint (5 :: uint16_t)
         \<or> 100 - uint (point_x demo_border_point) < uint (5 :: uint16_t)
         \<or> uint (point_y demo_border_point) < uint (5 :: uint16_t)
         \<or> 100 - uint (point_y demo_border_point) < uint (5 :: uint16_t)"
    by (simp add: demo_border_point_def)
  note t = C9_border_rejection [where 'f = 16, OF h1 h2 h3 h4]
  have a: "input_outside_roi (demo_level 1) 5 demo_border_point" by (rule t [THEN conjunct1])
  have b: "track_point demo_prims demo_par demo_level demo_level (demo_points(0 := demo_border_point))
         (pyramid_exp 1) 1 0 demo_state = Inr demo_state"
    by (rule t [THEN conjunct2, THEN conjunct1, rule_format]) (simp add: demo_par_def)
  have q: "input_outside_roi (demo_level 1) 5 \<lparr>point_x = 2, point_y = 2 :: 16 word\<rparr>"
    by (simp add: model_defs demo_defs)
  have c: "opticFlowLK demo_prims demo_par demo_img demo_img
         ((demo_points(0 := demo_border_point))(0 := \<lparr>point_x = 2, point_y = 2\<rparr>)) 2 demo_vectors
       = opticFlowLK demo_prims demo_par demo_img demo_img (demo_points(0 := demo_border_point)) 2
           demo_vectors"
  proof (rule t [THEN conjunct2, THEN conjunct2, rule_format], intro conjI)
    show "pyramid_build demo_prims demo_img (pyramid_level demo_par) (unat (pyramid_level demo_par))
            = demo_level 1"
      by (simp add: demo_par_def demo_level_def)
    show "half_window_size demo_par = 5" by (simp add: demo_par_def)
    show "(demo_points(0 := demo_border_point)) 0 = demo_border_point" by simp
    show "input_outside_roi (demo_level 1) 5 \<lparr>point_x = 2, point_y = 2 :: 16 word\<rparr>" by (rule q)
  qed
  show ?thesis using a b c by blast
qed

section \<open>The slot index at finer levels\<close>

text \<open>
  At a finer level the body of the point loop reads and writes \<^verbatim>\<open>vectors[new_p]\<close>, the slot of
  the next survivor, whatever the loop index \<open>i\<close> is (lemma \<open>track_point_fine\<close>: the result does
  not depend on \<open>i\<close>); the two agree as long as no point of the level was rejected.
\<close>

text \<open>
  Claim C1: at a finer level every point carried over from the coarser level is seeded by
  doubling exactly that point's estimate. The code evaluated on the scene with one level
  above the frame and the points \<open>(40, 40)\<close> and \<open>(30, 30)\<close>: level 1 tracks both and leaves the
  estimates 200 in slot 0 and 150 in slot 1; the seed of the second point would be 300; the
  call returns one point, slot 0 at 800, four times its estimate of level 1, and slot 1 still
  at 150, never doubled.
\<close>

theorem C1_seed_evaluation:
  "level_pass demo_prims demo_par demo_level demo_level demo_points (pyramid_exp 1) 1 demo_state
     = Inr demo_fine_state
   \<and> double_vector (vectors demo_fine_state 1)
     = \<lparr>pos = \<lparr>point_x = 300, point_y = 300\<rparr>, flow_x = 0, flow_y = 0\<rparr>
   \<and> opticFlowLK demo_prims demo_par demo_img demo_img demo_points 2 demo_vectors
     = Some (Inr ((vectors demo_fine_state)
                    (0 := \<lparr>pos = \<lparr>point_x = 800, point_y = 800\<rparr>, flow_x = 0, flow_y = 0\<rparr>), 1))"
  by (simp add: model_defs demo_defs points_loop.simps levels_loop.simps refine.simps
        free_loop_returns)

section \<open>The survivor count\<close>

text \<open>
  The body of the point loop either leaves the count and the index as they were or advances
  both by one, so the count of a level is at most the count it started from and at most
  \<open>max_points\<close>, and the count never grows over the level loop.
\<close>

lemma finish_point_count:
  assumes "finish_point st r = Inr st'"
  shows "(points_cnt st' = points_cnt st \<and> new_p st' = new_p st)
       \<or> (points_cnt st' = points_cnt st + 1 \<and> new_p st' = new_p st + 1)"
  using assms by (auto simp add: finish_point_def Let_def split: sum.splits prod.splits if_splits)

lemma track_vector_count:
  assumes "track_vector env par old_lvl new_lvl st = Inr st'"
  shows "(points_cnt st' = points_cnt st \<and> new_p st' = new_p st)
       \<or> (points_cnt st' = points_cnt st + 1 \<and> new_p st' = new_p st + 1)"
proof (cases "subpixel_factor par = 0")
  case True
  then show ?thesis using assms by (simp add: track_vector_def Let_def)
next
  case sf: False
  show ?thesis
  proof (cases "lin_Det (linearise env par old_lvl (pos (vectors st (unat (new_p st))))) <s 1")
    case True
    then show ?thesis using assms sf by (simp add: track_vector_def Let_def)
  next
    case False
    then have "finish_point st (refine env par old_lvl new_lvl
                 (linearise env par old_lvl (pos (vectors st (unat (new_p st))))) 0
                 (vectors st (unat (new_p st)))) = Inr st'"
      using assms sf by (simp add: track_vector_def Let_def)
    then show ?thesis by (rule finish_point_count)
  qed
qed

lemma track_point_count:
  assumes "track_point env par pyramid_old pyramid_new points e LVL i st = Inr st'"
  shows "(points_cnt st' = points_cnt st \<and> new_p st' = new_p st)
       \<or> (points_cnt st' = points_cnt st + 1 \<and> new_p st' = new_p st + 1)"
  using assms track_vector_count
  by (fastforce simp add: track_point_def Let_def split: if_splits)

lemma unat_succ_le: "unat (c + 1 :: 'a::len word) \<le> unat c + 1"
  by (simp add: unat_word_ariths)

lemma points_loop_count:
  assumes "points_loop env par pyramid_old pyramid_new points e LVL points_orig i st = Inr st'"
    and "unat (points_cnt st) \<le> unat i"
    and "unat i \<le> min (unat (max_points par)) (unat points_orig)"
  shows "unat (points_cnt st') \<le> min (unat (max_points par)) (unat points_orig)"
  using assms
proof (induction env par pyramid_old pyramid_new points e LVL points_orig i st rule: points_loop.induct)
  case (1 env par pyramid_old pyramid_new points e LVL points_orig i st)
  show ?case
  proof (cases "i < max_points par")
    case False
    then have "st' = st" using "1.prems"(1) by (simp add: points_loop.simps [of _ _ _ _ _ _ _ _ i])
    then show ?thesis using "1.prems" by simp
  next
    case a: True
    show ?thesis
    proof (cases "i < points_orig")
      case False
      then have "st' = st" using "1.prems"(1) by (simp add: points_loop.simps [of _ _ _ _ _ _ _ _ i])
      then show ?thesis using "1.prems" by simp
    next
      case b: True
      have c: "i < max_points par \<and> i < points_orig" using a b by simp
      have suc: "unat (i + 1) = Suc (unat i)" using a by (simp add: unat_word_succ word_less_not_max)
      have bound: "unat (i + 1) \<le> min (unat (max_points par)) (unat points_orig)"
        using a b suc by (simp add: word_less_nat_alt)
      show ?thesis
      proof (cases "track_point env par pyramid_old pyramid_new points e LVL i st")
        case (Inl err)
        then show ?thesis using a b "1.prems"(1)
          by (simp add: points_loop.simps [of _ _ _ _ _ _ _ _ i])
      next
        case (Inr st1)
        then have loop: "points_loop env par pyramid_old pyramid_new points e LVL points_orig (i + 1) st1
                           = Inr st'"
          using a b "1.prems"(1) by (simp add: points_loop.simps [of _ _ _ _ _ _ _ _ i])
        have "unat (points_cnt st1) \<le> unat (points_cnt st) + 1"
          using track_point_count [OF Inr] unat_succ_le [of "points_cnt st"] by auto
        then have "unat (points_cnt st1) \<le> unat (i + 1)" using "1.prems"(2) suc by simp
        then show ?thesis using "1.IH" [OF c Inr loop _ bound] by simp
      qed
    qed
  qed
qed

lemma level_pass_count:
  assumes "level_pass env par pyramid_old pyramid_new points e LVL st = Inr st'"
  shows "unat (points_cnt st') \<le> min (unat (max_points par)) (unat (points_cnt st))"
  using assms unfolding level_pass_def Let_def
  by (rule points_loop_count) simp_all

lemma levels_loop_count:
  assumes "levels_loop env par pyramid_old pyramid_new points e LVL st = Inr st'"
  shows "unat (points_cnt st') \<le> unat (points_cnt st)"
  using assms
proof (induction env par pyramid_old pyramid_new points e LVL st rule: levels_loop.induct)
  case (1 env par pyramid_old pyramid_new points e LVL st)
  show ?case
  proof (cases "LVL = - 1")
    case True
    then have "st' = st" using "1.prems" by (simp add: levels_loop.simps [of _ _ _ _ _ _ "- 1"])
    then show ?thesis by simp
  next
    case False
    show ?thesis
    proof (cases "level_pass env par pyramid_old pyramid_new points e LVL st")
      case (Inl err)
      then show ?thesis using False "1.prems" by (simp add: levels_loop.simps [of _ _ _ _ _ _ LVL])
    next
      case (Inr st1)
      then have "levels_loop env par pyramid_old pyramid_new points e (LVL - 1) st1 = Inr st'"
        using False "1.prems" by (simp add: levels_loop.simps [of _ _ _ _ _ _ LVL])
      then have "unat (points_cnt st') \<le> unat (points_cnt st1)" by (rule "1.IH" [OF False Inr])
      moreover have "unat (points_cnt st1) \<le> unat (points_cnt st)"
        using level_pass_count [OF Inr] by simp
      ultimately show ?thesis by simp
    qed
  qed
qed

text \<open>
  Claim C2: the counts never grow, and a rejected point is dropped for the rest of the call.
  The counts are bounded as the claim says (the lemmas above). The code evaluated on the
  scene, in the pass of level 0 that starts from the two estimates of level 1 with index and
  count reset: at the loop index 0 slot 0 is doubled to 400 and rejected, index and count
  stay 0; at the loop index 1 the same slot is taken up again, doubled to 800, tracked and
  counted. The rejected point is the one survivor of the level.
\<close>

theorem C2_rejected_slot_evaluation:
  "track_point demo_prims demo_par demo_level demo_level demo_points (pyramid_exp 1) 0 0
       (demo_fine_state\<lparr>points_cnt := 0, new_p := 0\<rparr>)
     = Inr (demo_fine_state\<lparr>points_cnt := 0, new_p := 0,
              vectors := (vectors demo_fine_state)
                 (0 := \<lparr>pos = \<lparr>point_x = 400, point_y = 400\<rparr>, flow_x = 0, flow_y = 0\<rparr>)\<rparr>)
   \<and> track_point demo_prims demo_par demo_level demo_level demo_points (pyramid_exp 1) 0 1
       (demo_fine_state\<lparr>points_cnt := 0, new_p := 0,
              vectors := (vectors demo_fine_state)
                 (0 := \<lparr>pos = \<lparr>point_x = 400, point_y = 400\<rparr>, flow_x = 0, flow_y = 0\<rparr>)\<rparr>)
     = Inr (demo_fine_state\<lparr>points_cnt := 1, new_p := 1,
              vectors := (vectors demo_fine_state)
                 (0 := \<lparr>pos = \<lparr>point_x = 800, point_y = 800\<rparr>, flow_x = 0, flow_y = 0\<rparr>)\<rparr>)"
  by (simp add: model_defs demo_defs refine.simps)

section \<open>The region-of-interest test of the iteration loop\<close>

text \<open>
  For a candidate inside the image the test of lines 179 and 180 is the one on the pixel
  distances to the four borders. The subtractions are unsigned ones: for a candidate beyond
  the right or the lower border they wrap to a large value and the test does not fire.
\<close>

lemma near_side_nat:
  fixes c :: "'p::len word"
  assumes len: "LENGTH('p) \<le> 32"
  shows "((ucast c div sf :: uint32_t) < ucast (hws :: uint16_t)) = (unat c div unat sf < unat hws)"
proof -
  have c32: "unat (ucast c :: uint32_t) = unat c" using len by (intro unat_ucast_up) simp
  have h32: "unat (ucast hws :: uint32_t) = unat hws" by (intro unat_ucast_up) simp
  show ?thesis by (simp add: word_less_nat_alt unat_div c32 h32)
qed

lemma far_side_no_wrap:
  fixes c :: "'p::len word"
  assumes len: "LENGTH('p) \<le> 32"
    and le: "unat c div unat sf \<le> unat (a :: uint16_t)"
  shows "((ucast a - ucast c div sf :: uint32_t) < ucast (hws :: uint16_t))
           = (unat a - unat c div unat sf < unat hws)"
proof -
  have c32: "unat (ucast c :: uint32_t) = unat c" using len by (intro unat_ucast_up) simp
  have a32: "unat (ucast a :: uint32_t) = unat a" by (intro unat_ucast_up) simp
  have h32: "unat (ucast hws :: uint32_t) = unat hws" by (intro unat_ucast_up) simp
  have q: "unat (ucast c div sf :: uint32_t) = unat c div unat sf" by (simp add: unat_div c32)
  have "(ucast c div sf :: uint32_t) \<le> ucast a" using le by (simp add: word_le_nat_alt q a32)
  then have "unat (ucast a - ucast c div sf :: uint32_t) = unat a - unat c div unat sf"
    by (simp add: unat_sub q a32)
  then show ?thesis by (simp add: word_less_nat_alt h32)
qed

lemma outside_roi_inside_image:
  fixes np :: "('p::len) point_t"
  assumes "LENGTH('p) \<le> 32"
    and "unat (point_x np) div unat sf \<le> unat (image_w img)"
    and "unat (point_y np) div unat sf \<le> unat (image_h img)"
  shows "outside_roi img hws sf np
           = (unat (point_x np) div unat sf < unat hws
              \<or> unat (image_w img) - unat (point_x np) div unat sf < unat hws
              \<or> unat (point_y np) div unat sf < unat hws
              \<or> unat (image_h img) - unat (point_y np) div unat sf < unat hws)"
  unfolding outside_roi_def
  by (simp only: near_side_nat [OF assms(1)] far_side_no_wrap [OF assms(1) assms(2)]
        far_side_no_wrap [OF assms(1) assms(3)])

text \<open>
  Claim C4: a candidate out of bounds is rejected at once, before a window is sampled. The
  code evaluated on the moving scene, at level 1 (an image of 50 by 50) with the half window 5
  and the factor 10: the point at 150 with the flow 360 has the candidate 510, that is pixel
  51, one pixel beyond the image; the test does not reject it, while it rejects the candidate
  470 (pixel 47, inside the image); the iteration samples the window at 510 and ends with the
  point tracked. The call on the point \<open>(30, 30)\<close> returns it as its one survivor, with the flow
  720 at the position 300 of the frame of 100 by 100 pixels.
\<close>

theorem C4_beyond_border_evaluation:
  "candidate (demo_vec\<lparr>flow_x := 360, flow_y := 360\<rparr>) = \<lparr>point_x = 510, point_y = 510\<rparr>
   \<and> image_w (demo_level 1) = 50 \<and> image_h (demo_level 1) = 50
   \<and> \<not> outside_roi (demo_level 1) 5 10 \<lparr>point_x = 510, point_y = 510 :: 16 word\<rparr>
   \<and> outside_roi (demo_level 1) 5 10 \<lparr>point_x = 470, point_y = 470 :: 16 word\<rparr>
   \<and> lk_iteration demo_prims_moving demo_par (demo_level 1) (demo_level 1) demo_lin 1
         (demo_vec\<lparr>flow_x := 360, flow_y := 360\<rparr>)
       = Inr (Converged, demo_vec\<lparr>flow_x := 360, flow_y := 360\<rparr>)
   \<and> opticFlowLK demo_prims_moving demo_par demo_img demo_img (\<lambda>i. demo_points 1) 1 demo_vectors
       = Some (Inr (demo_vectors
                 (0 := \<lparr>pos = \<lparr>point_x = 300, point_y = 300\<rparr>, flow_x = 720, flow_y = 720\<rparr>), 1))"
  by (simp add: model_defs demo_defs points_loop.simps levels_loop.simps refine.simps
        free_loop_returns)

end
